theory Spec2Isabelle
  imports Complex_Main
begin

section \<open>The document tree\<close>

text \<open>
  The validator of \<^verbatim>\<open>ocrd_validators/page_validator.py\<close> walks a parsed PAGE document.
  The element classes (\<^verbatim>\<open>ocrd_models.ocrd_page\<close>) are generated code that is not part of
  the sources at hand, so the tree is modelled from the data model of the specification
  and from the accessors the validator calls: every element has a class, an \<^verbatim>\<open>id\<close>, an
  optional \<^verbatim>\<open>Coords\<close> element holding a points string, a list of \<^verbatim>\<open>TextEquiv\<close> readings and
  children; a page has an optional \<^verbatim>\<open>Border\<close> (itself with \<^verbatim>\<open>Coords\<close>) and a text line an
  optional \<^verbatim>\<open>Baseline\<close>. The generated classes keep one list per kind of child; here one
  list holds the children of all kinds, and an accessor such as \<^verbatim>\<open>get_TextLine()\<close> returns
  the children of its class, in their order.

  Texts are lists of \<^typ>\<open>char\<close>, which stand for the code points below 256.
\<close>

type_synonym points = string

datatype TextEquivType = TextEquivType (index: "int option") (Unicode: string)

datatype cls =
    PageType
  | RegionType
  | AdvertRegionType
  | ChartRegionType
  | ChemRegionType
  | GraphicRegionType
  | LineDrawingRegionType
  | MathsRegionType
  | MusicRegionType
  | NoiseRegionType
  | SeparatorRegionType
  | TableRegionType
  | TextRegionType
  | UnknownRegionType
  | TextLineType
  | WordType
  | GlyphType

datatype BorderType = BorderType (border_Coords: "points option")

datatype node =
  Node (class_of: cls) (ID: string) (Border: "BorderType option") (Coords: "points option")
       (Baseline: "points option") (TextEquiv: "TextEquivType list") (children: "node list")

datatype PcGtsType = PcGtsType (pcGtsId: string) (Page: node)

definition set_TextEquiv :: "TextEquivType list \<Rightarrow> node \<Rightarrow> node" where
  "set_TextEquiv tes n =
     Node (class_of n) (ID n) (Border n) (Coords n) (Baseline n) tes (children n)"

definition set_children :: "node list \<Rightarrow> node \<Rightarrow> node" where
  "set_children cs n =
     Node (class_of n) (ID n) (Border n) (Coords n) (Baseline n) (TextEquiv n) cs"

text \<open>
  \<^verbatim>\<open>isinstance(node, class_)\<close>: every region class derives from \<^verbatim>\<open>RegionType\<close>; the
  other classes are unrelated.
\<close>

definition region_class :: "cls \<Rightarrow> bool" where
  "region_class c =
     (c \<in> {RegionType, AdvertRegionType, ChartRegionType, ChemRegionType, GraphicRegionType,
           LineDrawingRegionType, MathsRegionType, MusicRegionType, NoiseRegionType,
           SeparatorRegionType, TableRegionType, TextRegionType, UnknownRegionType})"

definition isinstance :: "node \<Rightarrow> cls \<Rightarrow> bool" where
  "isinstance node c = (class_of node = c \<or> (c = RegionType \<and> region_class (class_of node)))"

text \<open>\<^verbatim>\<open>original_tagname_\<close>: the element name the parser read, which is the class's.\<close>

fun tagname :: "cls \<Rightarrow> string" where
  "tagname PageType = ''Page''"
| "tagname RegionType = ''Region''"
| "tagname AdvertRegionType = ''AdvertRegion''"
| "tagname ChartRegionType = ''ChartRegion''"
| "tagname ChemRegionType = ''ChemRegion''"
| "tagname GraphicRegionType = ''GraphicRegion''"
| "tagname LineDrawingRegionType = ''LineDrawingRegion''"
| "tagname MathsRegionType = ''MathsRegion''"
| "tagname MusicRegionType = ''MusicRegion''"
| "tagname NoiseRegionType = ''NoiseRegion''"
| "tagname SeparatorRegionType = ''SeparatorRegion''"
| "tagname TableRegionType = ''TableRegion''"
| "tagname TextRegionType = ''TextRegion''"
| "tagname UnknownRegionType = ''UnknownRegion''"
| "tagname TextLineType = ''TextLine''"
| "tagname WordType = ''Word''"
| "tagname GlyphType = ''Glyph''"

definition original_tagname :: "node \<Rightarrow> string" where
  "original_tagname node = tagname (class_of node)"

datatype getter =
    get_AdvertRegion
  | get_ChartRegion
  | get_ChemRegion
  | get_GraphicRegion
  | get_LineDrawingRegion
  | get_MathsRegion
  | get_MusicRegion
  | get_NoiseRegion
  | get_SeparatorRegion
  | get_TableRegion
  | get_TextRegion
  | get_UnknownRegion
  | get_TextLine
  | get_Word
  | get_Glyph

fun getter_class :: "getter \<Rightarrow> cls" where
  "getter_class get_AdvertRegion = AdvertRegionType"
| "getter_class get_ChartRegion = ChartRegionType"
| "getter_class get_ChemRegion = ChemRegionType"
| "getter_class get_GraphicRegion = GraphicRegionType"
| "getter_class get_LineDrawingRegion = LineDrawingRegionType"
| "getter_class get_MathsRegion = MathsRegionType"
| "getter_class get_MusicRegion = MusicRegionType"
| "getter_class get_NoiseRegion = NoiseRegionType"
| "getter_class get_SeparatorRegion = SeparatorRegionType"
| "getter_class get_TableRegion = TableRegionType"
| "getter_class get_TextRegion = TextRegionType"
| "getter_class get_UnknownRegion = UnknownRegionType"
| "getter_class get_TextLine = TextLineType"
| "getter_class get_Word = WordType"
| "getter_class get_Glyph = GlyphType"

text \<open>\<^verbatim>\<open>getattr(node, getter)()\<close>: the children the accessor returns.\<close>

definition getattr :: "node \<Rightarrow> getter \<Rightarrow> node list" where
  "getattr node g = filter (\<lambda>c. class_of c = getter_class g) (children node)"

section \<open>The hierarchy table\<close>

type_synonym hierarchy_entry = "cls \<times> getter option \<times> string option"

definition HIERARCHY :: "hierarchy_entry list" where
  "HIERARCHY =
    [(PageType, Some get_AdvertRegion, None),
     (PageType, Some get_ChartRegion, None),
     (PageType, Some get_ChemRegion, None),
     (PageType, Some get_GraphicRegion, None),
     (PageType, Some get_GraphicRegion, None),
     (PageType, Some get_LineDrawingRegion, None),
     (PageType, Some get_MathsRegion, None),
     (PageType, Some get_MusicRegion, None),
     (PageType, Some get_NoiseRegion, None),
     (PageType, Some get_SeparatorRegion, None),
     (PageType, Some get_TableRegion, None),
     (PageType, Some get_TextRegion, None),
     (PageType, Some get_UnknownRegion, None),
     (RegionType, Some get_AdvertRegion, None),
     (RegionType, Some get_ChartRegion, None),
     (RegionType, Some get_ChemRegion, None),
     (RegionType, Some get_GraphicRegion, None),
     (RegionType, Some get_GraphicRegion, None),
     (RegionType, Some get_LineDrawingRegion, None),
     (RegionType, Some get_MathsRegion, None),
     (RegionType, Some get_MusicRegion, None),
     (RegionType, Some get_NoiseRegion, None),
     (RegionType, Some get_SeparatorRegion, None),
     (RegionType, Some get_TableRegion, None),
     (RegionType, Some get_TextRegion, None),
     (RegionType, Some get_UnknownRegion, None),
     (TextRegionType, Some get_TextLine, Some [CHR 0x0A]),
     (TextLineType, Some get_Word, Some '' ''),
     (WordType, Some get_Glyph, Some ''''),
     (GlyphType, None, None)]"

section \<open>Errors and the report\<close>

datatype report_error =
    ConsistencyError string string string string
  | CoordinateConsistencyError string string points points
  | CoordinateValidityError string string points

type_synonym report = "report_error list"

text \<open>
  Modelled from the spec: \<^verbatim>\<open>ValidationReport.add_error\<close> (\<^verbatim>\<open>report.py\<close> is not among the
  sources); the report is an ordered collection to which errors are appended.
\<close>

definition add_error :: "report \<Rightarrow> report_error \<Rightarrow> report" where
  "add_error report e = report @ [e]"

text \<open>What the code can raise.\<close>

datatype exn = AttributeError | TypeError | ValueError | Exception string

section \<open>Canonical text\<close>

text \<open>
  \<^verbatim>\<open>str.strip()\<close> and the pattern \<^verbatim>\<open>\s\<close> of \<^verbatim>\<open>re\<close> use the same set of white-space
  characters; below 256 these are the code points 9 to 13, 28 to 32, 133 and 160.
\<close>

definition isspace :: "char \<Rightarrow> bool" where
  "isspace c = ((of_char c :: nat) \<in> {9, 10, 11, 12, 13, 28, 29, 30, 31, 32, 133, 160})"

definition strip :: "string \<Rightarrow> string" where
  "strip s = rev (dropWhile isspace (rev (dropWhile isspace s)))"

fun join :: "string \<Rightarrow> string list \<Rightarrow> string" where
  "join sep [] = []"
| "join sep [t] = t"
| "join sep (t # ts) = t @ sep @ join sep ts"

definition compare_without_whitespace :: "string \<Rightarrow> string \<Rightarrow> bool" where
  "compare_without_whitespace a b =
     (filter (\<lambda>c. \<not> isspace c) a = filter (\<lambda>c. \<not> isspace c) b)"

definition get_text :: "node \<Rightarrow> string \<Rightarrow> string" where
  "get_text node strategy =
     (let textEquivs = TextEquiv node in
      if textEquivs = [] then ''''
      else if length textEquivs > 1 \<and> filter (\<lambda>x. index x = Some 1) textEquivs \<noteq> []
        then strip (Unicode (hd (filter (\<lambda>x. index x = Some 1) textEquivs)))
      else strip (Unicode (hd textEquivs)))"

definition concatenate :: "node list \<Rightarrow> string \<Rightarrow> string \<Rightarrow> string" where
  "concatenate nodes concatenate_with strategy =
     strip (join concatenate_with (map (\<lambda>node. get_text node strategy) nodes))"

definition set_Unicode :: "string \<Rightarrow> TextEquivType \<Rightarrow> TextEquivType" where
  "set_Unicode text x = TextEquivType (index x) text"

text \<open>\<^verbatim>\<open>index1[0].set_Unicode(text)\<close>: the first reading with index 1 is overwritten in place.\<close>

fun set_first_index1 :: "string \<Rightarrow> TextEquivType list \<Rightarrow> TextEquivType list" where
  "set_first_index1 text [] = []"
| "set_first_index1 text (x # xs) =
     (if index x = Some 1 then set_Unicode text x # xs else x # set_first_index1 text xs)"

definition set_text :: "node \<Rightarrow> string \<Rightarrow> string \<Rightarrow> node" where
  "set_text node text0 strategy =
     (let text = strip text0; textEquivs = TextEquiv node in
      if textEquivs = [] then set_TextEquiv (textEquivs @ [TextEquivType None text]) node
      else if length textEquivs > 1 \<and> filter (\<lambda>x. index x = Some 1) textEquivs \<noteq> []
        then set_TextEquiv (set_first_index1 text textEquivs) node
      else set_TextEquiv (set_Unicode text (hd textEquivs) # tl textEquivs) node)"

section \<open>Geometry\<close>

text \<open>
  The shapes are Shapely objects. Shapely is a library outside the repository, so what
  the validator reads from it is a parameter of the model: the two constructors applied
  to a points string (\<^verbatim>\<open>Polygon(polygon_from_points(points))\<close> and the same for
  \<^verbatim>\<open>LineString\<close>; \<open>None\<close> where the constructor or the parser of the points raises),
  the attributes \<^verbatim>\<open>is_valid\<close>, \<^verbatim>\<open>is_empty\<close>, \<^verbatim>\<open>bounds\<close> and \<^verbatim>\<open>length\<close>,
  and the predicate \<^verbatim>\<open>within\<close>.
\<close>

record 'g shapely =
  Polygon :: "points \<Rightarrow> 'g option"
  LineString :: "points \<Rightarrow> 'g option"
  is_valid :: "'g \<Rightarrow> bool"
  is_empty :: "'g \<Rightarrow> bool"
  bounds :: "'g \<Rightarrow> real \<times> real \<times> real \<times> real"
  geom_length :: "'g \<Rightarrow> real"
  geom_within :: "'g \<Rightarrow> 'g \<Rightarrow> bool"

text \<open>The test the validator applies to a node's polygon, a child's polygon and a baseline.\<close>

definition invalid_coords :: "'g shapely \<Rightarrow> 'g \<Rightarrow> bool" where
  "invalid_coords G poly =
     (\<not> is_valid G poly \<or> is_empty G poly \<or> fst (bounds G poly) < 0
      \<or> fst (snd (bounds G poly)) < 0 \<or> geom_length G poly < 4)"

text \<open>The truth value of \<^verbatim>\<open>node_poly\<close>: \<^verbatim>\<open>None\<close> is false, and so is an empty geometry.\<close>

definition truth :: "'g shapely \<Rightarrow> 'g option \<Rightarrow> bool" where
  "truth G node_poly = (case node_poly of None \<Rightarrow> False | Some p \<Rightarrow> \<not> is_empty G p)"

section \<open>The consistency validator\<close>

text \<open>
  The four options that every call of \<^verbatim>\<open>validate_consistency\<close> passes on unchanged
  are kept in one record.
\<close>

record config =
  strictness :: string
  strategy :: string
  check_baseline :: bool
  check_coords :: bool

text \<open>
  Lines 156 to 173: the polygon the children are compared with. For a page it is the
  border's, for any other element the element's own. A missing \<^verbatim>\<open>Coords\<close> makes
  \<^verbatim>\<open>get_Coords().points\<close> raise. Where the source leaves \<^verbatim>\<open>parent_points\<close> or
  \<^verbatim>\<open>node_poly\<close> unbound (both flags off, or a page without a border for the former)
  it never reads them; the model returns the empty string and \<open>None\<close> there.
\<close>

definition validate_node_coords ::
  "'g shapely \<Rightarrow> config \<Rightarrow> string \<Rightarrow> string \<Rightarrow> node \<Rightarrow> report
     \<Rightarrow> exn + (bool \<times> points \<times> 'g option \<times> report)" where
  "validate_node_coords G cfg tag node_id node report =
     (if check_coords cfg \<or> check_baseline cfg then
        (case (if isinstance node PageType then map_option border_Coords (Border node)
               else Some (Coords node)) of
           None \<Rightarrow> Inr (True, [], None, report)
         | Some None \<Rightarrow> Inl AttributeError
         | Some (Some parent_points) \<Rightarrow>
             (case Polygon G parent_points of
                None \<Rightarrow> Inl ValueError
              | Some node_poly \<Rightarrow>
                  if invalid_coords G node_poly
                  then Inr (False, parent_points, Some node_poly,
                            add_error report (CoordinateValidityError tag node_id parent_points))
                  else Inr (True, parent_points, Some node_poly, report)))
      else Inr (True, [], None, report))"

text \<open>Lines 183 to 201: a child's polygon against the node's.\<close>

definition validate_child_coords ::
  "'g shapely \<Rightarrow> config \<Rightarrow> string \<Rightarrow> points \<Rightarrow> 'g option \<Rightarrow> node \<Rightarrow> bool \<Rightarrow> report
     \<Rightarrow> exn + (bool \<times> report)" where
  "validate_child_coords G cfg tag parent_points node_poly child consistent report =
     (if check_coords cfg \<and> truth G node_poly then
        (case Coords child of
           None \<Rightarrow> Inl AttributeError
         | Some child_points \<Rightarrow>
             (case Polygon G child_points of
                None \<Rightarrow> Inl ValueError
              | Some child_poly \<Rightarrow>
                  if invalid_coords G child_poly
                  then Inr (False, add_error report
                              (CoordinateValidityError (original_tagname child) (ID child) child_points))
                  else if \<not> geom_within G child_poly (the node_poly)
                  then Inr (False, add_error report
                              (CoordinateConsistencyError tag (ID child) parent_points child_points))
                  else Inr (consistent, report)))
      else Inr (consistent, report))"

text \<open>Lines 202 to 218: the baseline of a text line against the line's polygon.\<close>

definition validate_baseline ::
  "'g shapely \<Rightarrow> config \<Rightarrow> string \<Rightarrow> points \<Rightarrow> 'g option \<Rightarrow> node \<Rightarrow> bool \<Rightarrow> report
     \<Rightarrow> exn + (bool \<times> report)" where
  "validate_baseline G cfg node_id parent_points node_poly node consistent report =
     (if isinstance node TextLineType \<and> check_baseline cfg \<and> Baseline node \<noteq> None then
        (case LineString G (the (Baseline node)) of
           None \<Rightarrow> Inl ValueError
         | Some baseline_line \<Rightarrow>
             if invalid_coords G baseline_line
             then Inr (False, add_error report
                         (CoordinateValidityError ''Baseline'' node_id (the (Baseline node))))
             else (case node_poly of
                     None \<Rightarrow> Inl AttributeError
                   | Some poly \<Rightarrow>
                       if \<not> geom_within G baseline_line poly
                       then Inr (False, add_error report
                                   (CoordinateConsistencyError ''Baseline'' node_id parent_points
                                      (the (Baseline node))))
                       else Inr (consistent, report)))
      else Inr (consistent, report))"

text \<open>Lines 219 to 233: the node's text against the joined texts of the children.\<close>

definition validate_text ::
  "config \<Rightarrow> string \<Rightarrow> string \<Rightarrow> string option \<Rightarrow> node list \<Rightarrow> node \<Rightarrow> bool \<Rightarrow> report
     \<Rightarrow> bool \<times> node \<times> report" where
  "validate_text cfg tag node_id concatenate_with child_nodes node consistent report =
     (case concatenate_with of
        None \<Rightarrow> (consistent, node, report)
      | Some sep \<Rightarrow>
          if strictness cfg = ''off'' then (consistent, node, report)
          else
            let concatenated = concatenate child_nodes sep (strategy cfg);
                text_results = get_text node (strategy cfg)
            in if concatenated \<noteq> [] \<and> text_results \<noteq> [] \<and> concatenated \<noteq> text_results then
                 if strictness cfg = ''fix''
                 then (False, set_text node concatenated (strategy cfg), report)
                 else if strictness cfg = ''strict''
                         \<or> \<not> compare_without_whitespace concatenated text_results
                 then (False, node,
                       add_error report (ConsistencyError tag node_id text_results concatenated))
                 else (False, node, report)
               else (consistent, node, report))"

text \<open>The number of elements of a tree, the measure of the recursion.\<close>

fun nodes :: "node \<Rightarrow> nat" where
  "nodes (Node c i b co bl te cs) = Suc (sum_list (map nodes cs))"

text \<open>
  \<^verbatim>\<open>validate_consistency\<close> for an element (for the \<^verbatim>\<open>PcGtsType\<close> root see
  \<open>validate_consistency_PcGts\<close> below); \<open>validate_node\<close> is its body from line 153 on,
  \<open>validate_hierarchy\<close> the loop over the table and \<open>validate_children\<close> the loop over
  the children an accessor returns (the children of another class are passed over).
  The source mutates the tree in place, so every function returns the tree as it is
  when the call ends, also when the call raises; the first component of the result is
  the exception or the value returned. A page has no \<^verbatim>\<open>id\<close>.
\<close>

function validate_consistency ::
    "'g shapely \<Rightarrow> config \<Rightarrow> node \<Rightarrow> report \<Rightarrow> (exn + bool) \<times> node \<times> report"
  and validate_node ::
    "'g shapely \<Rightarrow> config \<Rightarrow> string \<Rightarrow> node \<Rightarrow> report \<Rightarrow> (exn + bool) \<times> node \<times> report"
  and validate_hierarchy ::
    "'g shapely \<Rightarrow> config \<Rightarrow> string \<Rightarrow> string \<Rightarrow> points \<Rightarrow> 'g option \<Rightarrow> hierarchy_entry list
       \<Rightarrow> node \<Rightarrow> bool \<Rightarrow> report \<Rightarrow> (exn + bool) \<times> node \<times> report"
  and validate_children ::
    "'g shapely \<Rightarrow> config \<Rightarrow> string \<Rightarrow> points \<Rightarrow> 'g option \<Rightarrow> getter \<Rightarrow> node list
       \<Rightarrow> bool \<Rightarrow> report \<Rightarrow> (exn + bool) \<times> node list \<times> report"
where
  "validate_consistency G cfg node report =
     (if isinstance node GlyphType then (Inr True, node, report)
      else if isinstance node PageType then (Inl AttributeError, node, report)
      else validate_node G cfg (ID node) node report)"
| "validate_node G cfg node_id node report =
     (case validate_node_coords G cfg (original_tagname node) node_id node report of
        Inl e \<Rightarrow> (Inl e, node, report)
      | Inr (consistent, parent_points, node_poly, report') \<Rightarrow>
          validate_hierarchy G cfg (original_tagname node) node_id parent_points node_poly
            HIERARCHY node consistent report')"
| "validate_hierarchy G cfg tag node_id parent_points node_poly [] node consistent report =
     (Inr consistent, node, report)"
| "validate_hierarchy G cfg tag node_id parent_points node_poly
       ((c, getter, concatenate_with) # rest) node consistent report =
     (if \<not> isinstance node c
      then validate_hierarchy G cfg tag node_id parent_points node_poly rest node consistent report
      else
        (case getter of
           None \<Rightarrow> (Inl TypeError, node, report)
         | Some g \<Rightarrow>
             (case validate_children G cfg tag parent_points node_poly g (children node)
                     consistent report of
                (Inl e, children', report') \<Rightarrow> (Inl e, set_children children' node, report')
              | (Inr consistent', children', report') \<Rightarrow>
                  (case validate_baseline G cfg node_id parent_points node_poly
                          (set_children children' node) consistent' report' of
                     Inl e \<Rightarrow> (Inl e, set_children children' node, report')
                   | Inr (consistent'', report'') \<Rightarrow>
                       (case validate_text cfg tag node_id concatenate_with
                               (getattr (set_children children' node) g)
                               (set_children children' node) consistent'' report'' of
                          (consistent''', node', report''') \<Rightarrow>
                            validate_hierarchy G cfg tag node_id parent_points node_poly rest
                              node' consistent''' report''')))))"
| "validate_children G cfg tag parent_points node_poly g [] consistent report =
     (Inr consistent, [], report)"
| "validate_children G cfg tag parent_points node_poly g (child # rest) consistent report =
     (if class_of child \<noteq> getter_class g
      then (case validate_children G cfg tag parent_points node_poly g rest consistent report of
              (r, rest', report') \<Rightarrow> (r, child # rest', report'))
      else
        (case validate_consistency G cfg child report of
           (Inl e, child', report') \<Rightarrow> (Inl e, child' # rest, report')
         | (Inr b, child', report') \<Rightarrow>
             (case validate_child_coords G cfg tag parent_points node_poly child'
                     (b \<and> consistent) report' of
                Inl e \<Rightarrow> (Inl e, child' # rest, report')
              | Inr (consistent', report'') \<Rightarrow>
                  (case validate_children G cfg tag parent_points node_poly g rest
                          consistent' report'' of
                     (r, rest', report''') \<Rightarrow> (r, child' # rest', report''')))))"
  by pat_completeness auto


lemma nodes_set_children [simp]: "nodes (set_children cs n) = Suc (sum_list (map nodes cs))"
  by (simp add: set_children_def)

lemma nodes_set_text [simp]: "nodes (set_text n t s) = nodes n"
  by (cases n) (simp add: set_text_def set_TextEquiv_def Let_def)

lemma nodes_children: "nodes n = Suc (sum_list (map nodes (children n)))"
  by (cases n) simp

lemma nodes_validate_text:
  "validate_text cfg tag node_id cw cs n c r = (c', n', r') \<Longrightarrow> nodes n' = nodes n"
  by (auto simp: validate_text_def Let_def split: option.splits if_splits)

lemma validate_dom_nodes:
  "validate_consistency_validate_node_validate_hierarchy_validate_children_dom
     (Inl (Inl (G, cfg, node, report))) \<Longrightarrow>
   nodes (fst (snd (validate_consistency G cfg node report))) = nodes node"
  "validate_consistency_validate_node_validate_hierarchy_validate_children_dom
     (Inl (Inr (G, cfg, node_id, node, report))) \<Longrightarrow>
   nodes (fst (snd (validate_node G cfg node_id node report))) = nodes node"
  "validate_consistency_validate_node_validate_hierarchy_validate_children_dom
     (Inr (Inl (G, cfg, tag, node_id, parent_points, node_poly, H, node, consistent, report))) \<Longrightarrow>
   nodes (fst (snd (validate_hierarchy G cfg tag node_id parent_points node_poly H node
      consistent report))) = nodes node"
  "validate_consistency_validate_node_validate_hierarchy_validate_children_dom
     (Inr (Inr (G, cfg, tag, parent_points, node_poly, g, cs, consistent, report))) \<Longrightarrow>
   sum_list (map nodes (fst (snd (validate_children G cfg tag parent_points node_poly g cs
      consistent report)))) = sum_list (map nodes cs)"
proof (induct rule: validate_consistency_validate_node_validate_hierarchy_validate_children.pinduct)
  case (1 G cfg node report)
  then show ?case by (simp add: validate_consistency.psimps)
next
  case (2 G cfg node_id node report)
  then show ?case by (auto simp: validate_node.psimps split: sum.splits prod.splits)
next
  case (3 G cfg tag node_id parent_points node_poly node consistent report)
  then show ?case by (simp add: validate_hierarchy.psimps)
next
  case (4 G cfg tag node_id parent_points node_poly c getter concatenate_with rest node consistent report)
  show ?case
    using 4
    apply (simp add: validate_hierarchy.psimps split: option.splits sum.splits prod.splits)
    apply (auto simp: nodes_children[symmetric] dest!: nodes_validate_text)
    done
next
  case (5 G cfg tag parent_points node_poly g consistent report)
  then show ?case by (simp add: validate_children.psimps)
next
  case (6 G cfg tag parent_points node_poly g child rest consistent report)
  show ?case
  proof (cases "class_of child \<noteq> getter_class g")
    case True
    with 6(1,2) show ?thesis
      by (auto simp: validate_children.psimps split: prod.splits)
  next
    case False
    obtain r child' report' where vc: "validate_consistency G cfg child report = (r, child', report')"
      by (cases "validate_consistency G cfg child report") auto
    from 6(3) False vc have n: "nodes child' = nodes child" by simp
    show ?thesis
    proof (cases r)
      case (Inl e)
      with 6(1) False vc n show ?thesis by (simp add: validate_children.psimps)
    next
      case (Inr b)
      show ?thesis
      proof (cases "validate_child_coords G cfg tag parent_points node_poly child' (b \<and> consistent) report'")
        case (Inl e)
        with 6(1) False vc n Inr show ?thesis by (simp add: validate_children.psimps)
      next
        case cc: (Inr p)
        obtain consistent' report'' where p: "p = (consistent', report'')" by (cases p) auto
        from 6(4) False vc Inr cc p
        have "sum_list (map nodes (fst (snd (validate_children G cfg tag parent_points node_poly g
                 rest consistent' report'')))) = sum_list (map nodes rest)"
          by simp
        with 6(1) False vc n Inr cc p show ?thesis
          by (auto simp: validate_children.psimps split: prod.splits)
      qed
    qed
  qed
qed

lemma nodes_pos [simp]: "0 < nodes n"
  by (cases n) simp

lemma sum_nodes_pos: "cs \<noteq> [] \<Longrightarrow> 0 < sum_list (map nodes cs)"
  by (cases cs) (simp_all add: add_pos_nonneg)


lemma nested_measure:
  assumes "sum_list (map nodes (fst (snd R))) = sum_list (map nodes (children node))"
    and "(Inr b, y) = R" and "(xa, ya) = y"
    and "(xc, yc) = validate_text cfg tag nid cw cs (set_children xa node) xb yb"
    and "(xd, yd) = yc"
  shows "nodes xd = nodes node"
proof -
  from assms(2,3) have "fst (snd R) = xa" by auto
  with assms(1) have "sum_list (map nodes xa) = sum_list (map nodes (children node))" by simp
  moreover from assms(4,5) have "validate_text cfg tag nid cw cs (set_children xa node) xb yb = (xc, xd, yd)"
    by simp
  then have "nodes xd = nodes (set_children xa node)" by (rule nodes_validate_text)
  ultimately show ?thesis by (simp add: nodes_children[of node])
qed

termination validate_consistency
  apply (relation "inv_image (less_than <*lex*> less_than <*lex*> less_than)
     (\<lambda>x. case x of
        Inl (Inl (G, cfg, node, report)) \<Rightarrow> (nodes node, 3::nat, 0::nat)
      | Inl (Inr (G, cfg, node_id, node, report)) \<Rightarrow> (nodes node, 2, 0)
      | Inr (Inl (G, cfg, tag, node_id, pp, np, H, node, consistent, report)) \<Rightarrow>
          (nodes node, 1, length H)
      | Inr (Inr (G, cfg, tag, pp, np, g, cs, consistent, report)) \<Rightarrow>
          (sum_list (map nodes cs), 4, 0))")
          apply (intro wf_inv_image wf_lex_prod wf_less_than)
         apply simp_all
    apply (simp add: nodes_children)
   apply (rule disjI2)
   apply (erule nested_measure[OF validate_dom_nodes(4)]; assumption)
  subgoal for g child rest by (cases rest) (simp_all add: add_pos_nonneg)
  done

declare validate_consistency.simps [simp del] validate_node.simps [simp del]

text \<open>
  The first branch of \<^verbatim>\<open>validate_consistency\<close>: the root is unwrapped, and its
  \<^verbatim>\<open>pcGtsId\<close> stands for the page's missing \<^verbatim>\<open>id\<close>.
\<close>

definition validate_consistency_PcGts ::
  "'g shapely \<Rightarrow> config \<Rightarrow> PcGtsType \<Rightarrow> report \<Rightarrow> (exn + bool) \<times> PcGtsType \<times> report" where
  "validate_consistency_PcGts G cfg pcgts report =
     (case validate_node G cfg (pcGtsId pcgts) (Page pcgts) report of
        (r, page, report') \<Rightarrow> (r, PcGtsType (pcGtsId pcgts) page, report'))"

section \<open>The entry point\<close>

text \<open>\<^verbatim>\<open>a in b\<close> for two strings: \<open>a\<close> occurs in \<open>b\<close>.\<close>

fun str_in :: "string \<Rightarrow> string \<Rightarrow> bool" where
  "str_in a [] = (a = [])"
| "str_in a (c # b) = (take (length a) (c # b) = a \<or> str_in a b)"

text \<open>
  \<^verbatim>\<open>PageValidator.validate\<close>. The two ways to load a page, \<^verbatim>\<open>page_from_file\<close> and
  \<^verbatim>\<open>parse\<close>, are parameters. The source writes \<^verbatim>\<open>strategy not in ('index1')\<close>, and
  \<^verbatim>\<open>('index1')\<close> is a string, not a tuple: the test is for a substring. The result is
  the exception or the report, and the page as the call leaves it (if there is one).
\<close>

definition validate ::
  "'g shapely \<Rightarrow> ('f \<Rightarrow> exn + PcGtsType) \<Rightarrow> (string \<Rightarrow> exn + PcGtsType)
     \<Rightarrow> string option \<Rightarrow> PcGtsType option \<Rightarrow> 'f option \<Rightarrow> string \<Rightarrow> string \<Rightarrow> bool \<Rightarrow> bool
     \<Rightarrow> (exn + report) \<times> PcGtsType option" where
  "validate G page_from_file parse filename ocrd_page ocrd_file strictness0 strategy0
       check_baseline0 check_coords0 =
     (case (case ocrd_page of
              Some p \<Rightarrow> Inr p
            | None \<Rightarrow>
                (case ocrd_file of
                   Some f \<Rightarrow> page_from_file f
                 | None \<Rightarrow>
                     (if filename \<noteq> None \<and> filename \<noteq> Some []
                      then parse (the filename)
                      else Inl (Exception
                        ''At least one of ocrd_page, ocrd_file or filename must be set'')))) of
        Inl e \<Rightarrow> (Inl e, None)
      | Inr page \<Rightarrow>
          if \<not> str_in strategy0 ''index1''
          then (Inl (Exception (''Element selection strategy '' @ strategy0 @ '' not implemented'')),
                Some page)
          else if strictness0 \<notin> {''strict'', ''lax'', ''fix'', ''off''}
          then (Inl (Exception (''Strictness level '' @ strictness0 @ '' not implemented'')),
                Some page)
          else
            (case validate_consistency_PcGts G
                    \<lparr>strictness = strictness0, strategy = strategy0,
                     check_baseline = check_baseline0, check_coords = check_coords0\<rparr>
                    page [] of
               (Inl e, page', report) \<Rightarrow> (Inl e, Some page')
             | (Inr consistent, page', report) \<Rightarrow> (Inr report, Some page')))"

section \<open>What a run may change\<close>

text \<open>
  The tree with the canonical text of every element overwritten by the empty string
  (where the element has a reading at all). Two trees with the same image differ at most
  in canonical texts.
\<close>

fun without_text :: "node \<Rightarrow> node" where
  "without_text (Node c i b co bl te cs) =
     Node c i b co bl
       (if te = [] then [] else TextEquiv (set_text (Node c i b co bl te []) [] []))
       (map without_text cs)"


section \<open>What a run may report\<close>

text \<open>
  The conditions under which the code appends each kind of error: a text error only when
  the strictness is neither \<open>off\<close> nor \<open>fix\<close> and the two texts are non-empty and differ
  (under \<open>lax\<close>, also after white space is removed); a containment error only for an inner
  polygon or baseline that passed the validity test, against an outer polygon that
  exists (and, for a child, is not empty); a validity error only for a shape that failed
  the test. \<open>extends\<close> says that a report is another one with such errors appended.
\<close>

definition sound_error :: "'g shapely \<Rightarrow> config \<Rightarrow> report_error \<Rightarrow> bool" where
  "sound_error G cfg e =
     (case e of
        ConsistencyError tag i actual expected \<Rightarrow>
          strictness cfg \<noteq> ''off'' \<and> strictness cfg \<noteq> ''fix'' \<and> expected \<noteq> [] \<and> actual \<noteq> []
          \<and> expected \<noteq> actual
          \<and> (strictness cfg = ''strict'' \<or> \<not> compare_without_whitespace expected actual)
      | CoordinateConsistencyError tag i outer inner \<Rightarrow>
          (case Polygon G outer of
             None \<Rightarrow> False
           | Some q \<Rightarrow>
               (check_coords cfg \<and> \<not> is_empty G q
                \<and> (case Polygon G inner of
                      None \<Rightarrow> False
                    | Some p \<Rightarrow> \<not> invalid_coords G p \<and> \<not> geom_within G p q))
               \<or> (check_baseline cfg
                  \<and> (case LineString G inner of
                        None \<Rightarrow> False
                      | Some l \<Rightarrow> \<not> invalid_coords G l \<and> \<not> geom_within G l q)))
      | CoordinateValidityError tag i pts \<Rightarrow>
          (case Polygon G pts of None \<Rightarrow> False | Some p \<Rightarrow> invalid_coords G p)
          \<or> (case LineString G pts of None \<Rightarrow> False | Some l \<Rightarrow> invalid_coords G l))"

definition extends :: "'g shapely \<Rightarrow> config \<Rightarrow> report \<Rightarrow> report \<Rightarrow> bool" where
  "extends G cfg r r' = (\<exists>es. r' = r @ es \<and> list_all (sound_error G cfg) es)"

section \<open>Traversal without geometry\<close>

text \<open>
  What the specification describes for a page without a border: the regions are visited
  in the order of the table and nothing is compared with the page. \<open>traverse_children\<close>
  visits the children an accessor returns, \<open>traverse_regions\<close> does so for a list of
  accessors; \<open>region_getters\<close> are the accessors of the table's entries for a page.
\<close>

fun traverse_children ::
  "'g shapely \<Rightarrow> config \<Rightarrow> getter \<Rightarrow> node list \<Rightarrow> bool \<Rightarrow> report
     \<Rightarrow> (exn + bool) \<times> node list \<times> report" where
  "traverse_children G cfg g [] consistent report = (Inr consistent, [], report)"
| "traverse_children G cfg g (child # rest) consistent report =
     (if class_of child \<noteq> getter_class g
      then (case traverse_children G cfg g rest consistent report of
              (r, rest', report') \<Rightarrow> (r, child # rest', report'))
      else
        (case validate_consistency G cfg child report of
           (Inl e, child', report') \<Rightarrow> (Inl e, child' # rest, report')
         | (Inr b, child', report') \<Rightarrow>
             (case traverse_children G cfg g rest (b \<and> consistent) report' of
                (r, rest', report'') \<Rightarrow> (r, child' # rest', report''))))"

fun traverse_regions ::
  "'g shapely \<Rightarrow> config \<Rightarrow> getter list \<Rightarrow> node \<Rightarrow> bool \<Rightarrow> report
     \<Rightarrow> (exn + bool) \<times> node \<times> report" where
  "traverse_regions G cfg [] page consistent report = (Inr consistent, page, report)"
| "traverse_regions G cfg (g # gs) page consistent report =
     (case traverse_children G cfg g (children page) consistent report of
        (Inl e, children', report') \<Rightarrow> (Inl e, set_children children' page, report')
      | (Inr consistent', children', report') \<Rightarrow>
          traverse_regions G cfg gs (set_children children' page) consistent' report')"

definition region_getters :: "getter list" where
  "region_getters =
     [get_AdvertRegion, get_ChartRegion, get_ChemRegion, get_GraphicRegion, get_GraphicRegion,
      get_LineDrawingRegion, get_MathsRegion, get_MusicRegion, get_NoiseRegion,
      get_SeparatorRegion, get_TableRegion, get_TextRegion, get_UnknownRegion]"


text \<open>
  A property of a table, for a node: once an entry with a delimiter applies to the node,
  no later entry applies to it.
\<close>

fun text_entry_last :: "node \<Rightarrow> hierarchy_entry list \<Rightarrow> bool" where
  "text_entry_last n [] = True"
| "text_entry_last n ((c, g, cw) # H) =
     (if isinstance n c \<and> cw \<noteq> None then (\<forall>e\<in>set H. \<not> isinstance n (fst e))
      else text_entry_last n H)"


section \<open>Two runs\<close>

text \<open>
  Two trees are similar for a run when the run cannot tell them apart other than by
  their texts: under \<open>fix\<close> a run may have rewritten canonical texts, under any other
  strictness it has changed nothing.
\<close>

definition similar :: "config \<Rightarrow> node \<Rightarrow> node \<Rightarrow> bool" where
  "similar cfg m n =
     (if strictness cfg = ''fix'' then without_text m = without_text n else m = n)"

text \<open>Two outcomes agree when both are the same exception or both are a return.\<close>

definition same_raise :: "exn + bool \<Rightarrow> exn + bool \<Rightarrow> bool" where
  "same_raise o1 o2 =
     (case o1 of Inl e \<Rightarrow> o2 = Inl e | Inr b \<Rightarrow> (case o2 of Inl e \<Rightarrow> False | Inr b2 \<Rightarrow> True))"

text \<open>A tree is stable when a run on it, from any report, leaves it as it is.\<close>

definition stable :: "'g shapely \<Rightarrow> config \<Rightarrow> node \<Rightarrow> bool" where
  "stable G cfg n = (\<forall>r. fst (snd (validate_consistency G cfg n r)) = n)"

text \<open>The options with the text check switched off (strictness \<open>off\<close>).\<close>

definition without_text_check :: "config \<Rightarrow> config" where
  "without_text_check cfg = cfg\<lparr>strictness := ''off''\<rparr>"

text \<open>
  The number of entries of a table that make the loop of lines 174 to 201 call
  \<^verbatim>\<open>validate_consistency\<close> on the children of class \<open>c\<close> of a node: the entries
  whose class the node is an instance of and whose accessor returns that class.
\<close>

definition visits :: "node \<Rightarrow> cls \<Rightarrow> hierarchy_entry list \<Rightarrow> nat" where
  "visits node c H =
     length (filter (\<lambda>(cl, getter, cw). isinstance node cl
                        \<and> map_option getter_class getter = Some c) H)"

section \<open>A small geometry and a small document for evaluation\<close>

text \<open>
  Three rectangles, given by their points strings, with the values Shapely computes for
  them: the bounding box, the perimeter, and containment. For any other points string
  the constructor raises.
\<close>

definition demo_bounds :: "points \<Rightarrow> real \<times> real \<times> real \<times> real" where
  "demo_bounds p =
     (if p = ''-2,0 2,0 2,4 -2,4'' then (-2, 0, 2, 4)
      else if p = ''5,5 9,5 9,9 5,9'' then (5, 5, 9, 9)
      else (0, 0, 10, 10))"

definition demo_shapely :: "points shapely" where
  "demo_shapely =
     \<lparr>Polygon = (\<lambda>p. if p \<in> {''-2,0 2,0 2,4 -2,4'', ''5,5 9,5 9,9 5,9'', ''0,0 10,0 10,10 0,10''}
                      then Some p else None),
      LineString = (\<lambda>p. None),
      is_valid = (\<lambda>p. True),
      is_empty = (\<lambda>p. False),
      bounds = demo_bounds,
      geom_length =
        (\<lambda>p. case demo_bounds p of (x0, y0, x1, y1) \<Rightarrow> 2 * ((x1 - x0) + (y1 - y0))),
      geom_within =
        (\<lambda>a b. case demo_bounds a of (ax0, ay0, ax1, ay1) \<Rightarrow>
                 case demo_bounds b of (bx0, by0, bx1, by1) \<Rightarrow>
                   bx0 \<le> ax0 \<and> by0 \<le> ay0 \<and> ax1 \<le> bx1 \<and> ay1 \<le> by1)\<rparr>"

definition demo_config :: "string \<Rightarrow> bool \<Rightarrow> config" where
  "demo_config s checks =
     \<lparr>strictness = s, strategy = ''index1'', check_baseline = checks, check_coords = checks\<rparr>"

text \<open>An element with one reading, the given polygon and the given children.\<close>

definition element :: "cls \<Rightarrow> string \<Rightarrow> points \<Rightarrow> string \<Rightarrow> node list \<Rightarrow> node" where
  "element c i p t cs = Node c i None (Some p) None [TextEquivType None t] cs"

text \<open>A page without a border around the given regions.\<close>

definition demo_page :: "node list \<Rightarrow> PcGtsType" where
  "demo_page regions = PcGtsType ''pc'' (Node PageType [] None None None [] regions)"

text \<open>A text line \<open>fo o\<close> with the words \<open>foo\<close> and \<open>o\<close>, in a region with the line's text.\<close>

definition demo_line :: "string \<Rightarrow> node" where
  "demo_line t =
     element TextLineType ''l1'' ''5,5 9,5 9,9 5,9'' t
       [element WordType ''w1'' ''5,5 9,5 9,9 5,9'' ''foo'' [],
        element WordType ''w2'' ''5,5 9,5 9,9 5,9'' ''o'' []]"

definition demo_region :: "string \<Rightarrow> node" where
  "demo_region t =
     element TextRegionType ''r1'' ''0,0 10,0 10,10 0,10'' t [demo_line t]"

text \<open>A region with a negative coordinate around a line that lies outside of it.\<close>

definition demo_outside :: node where
  "demo_outside =
     element TextRegionType ''r1'' ''-2,0 2,0 2,4 -2,4'' ''foo''
       [element TextLineType ''l1'' ''5,5 9,5 9,9 5,9'' ''foo'' []]"

text \<open>A text region with the lines \<open>foo\<close> and \<open>bar\<close>.\<close>

definition demo_two_lines :: "string \<Rightarrow> node" where
  "demo_two_lines t =
     element TextRegionType ''r1'' ''0,0 10,0 10,10 0,10'' t
       [element TextLineType ''l1'' ''5,5 9,5 9,9 5,9'' ''foo'' [],
        element TextLineType ''l2'' ''5,5 9,5 9,9 5,9'' ''bar'' []]"


text \<open>
  A graphic region with a negative coordinate around a text region that lies outside of
  it and whose text is not the joined text of its lines, and the errors a run on the
  graphic region finds: one of each kind.
\<close>

definition demo_graphic :: node where
  "demo_graphic =
     element GraphicRegionType ''g1'' ''-2,0 2,0 2,4 -2,4'' '''' [demo_two_lines ''foo bar'']"

definition demo_graphic_errors :: report where
  "demo_graphic_errors =
     [CoordinateValidityError ''GraphicRegion'' ''g1'' ''-2,0 2,0 2,4 -2,4'',
      ConsistencyError ''TextRegion'' ''r1'' ''foo bar'' (''foo'' @ [CHR 0x0A] @ ''bar''),
      CoordinateConsistencyError ''GraphicRegion'' ''r1'' ''-2,0 2,0 2,4 -2,4''
        ''0,0 10,0 10,10 0,10'']"

text \<open>A region whose polygon has two points.\<close>

definition demo_two_points :: node where
  "demo_two_points = element TextRegionType ''r1'' ''0,0 1,1'' '''' []"

text \<open>Loaders for the entry point that find no file.\<close>

definition no_loader :: "unit \<Rightarrow> exn + PcGtsType" where
  "no_loader f = Inl (Exception ''no file'')"

definition no_parser :: "string \<Rightarrow> exn + PcGtsType" where
  "no_parser f = Inl (Exception ''no file'')"

section \<open>Reasoning about the recursion\<close>

text \<open>
  The induction rule of the four functions, with the results of the calls named as in
  the equations.
\<close>

lemma validate_induct [case_names consistency node nil entry no_children child]:
  fixes P Q R S
  assumes vc: "\<And>G cfg node report.
      (\<not> isinstance node GlyphType \<Longrightarrow> \<not> isinstance node PageType \<Longrightarrow>
         Q G cfg (ID node) node report) \<Longrightarrow>
      P G cfg node report"
    and vn: "\<And>G cfg node_id node report.
      (\<And>consistent parent_points node_poly report1.
          validate_node_coords G cfg (original_tagname node) node_id node report =
            Inr (consistent, parent_points, node_poly, report1) \<Longrightarrow>
          R G cfg (original_tagname node) node_id parent_points node_poly HIERARCHY node
            consistent report1) \<Longrightarrow>
      Q G cfg node_id node report"
    and nil: "\<And>G cfg tag node_id parent_points node_poly node consistent report.
      R G cfg tag node_id parent_points node_poly [] node consistent report"
    and entry: "\<And>G cfg tag node_id parent_points node_poly c getter concatenate_with rest node
        consistent report.
      (\<not> isinstance node c \<Longrightarrow>
         R G cfg tag node_id parent_points node_poly rest node consistent report) \<Longrightarrow>
      (\<And>g. isinstance node c \<Longrightarrow> getter = Some g \<Longrightarrow>
         S G cfg tag parent_points node_poly g (children node) consistent report) \<Longrightarrow>
      (\<And>g consistent1 children1 report1 consistent2 report2 consistent3 node3 report3.
          isinstance node c \<Longrightarrow> getter = Some g \<Longrightarrow>
          validate_children G cfg tag parent_points node_poly g (children node) consistent
            report = (Inr consistent1, children1, report1) \<Longrightarrow>
          validate_baseline G cfg node_id parent_points node_poly
            (set_children children1 node) consistent1 report1 = Inr (consistent2, report2) \<Longrightarrow>
          validate_text cfg tag node_id concatenate_with
            (getattr (set_children children1 node) g) (set_children children1 node)
            consistent2 report2 = (consistent3, node3, report3) \<Longrightarrow>
          R G cfg tag node_id parent_points node_poly rest node3 consistent3 report3) \<Longrightarrow>
      R G cfg tag node_id parent_points node_poly ((c, getter, concatenate_with) # rest) node
        consistent report"
    and no_children: "\<And>G cfg tag parent_points node_poly g consistent report.
      S G cfg tag parent_points node_poly g [] consistent report"
    and child: "\<And>G cfg tag parent_points node_poly g child rest consistent report.
      (class_of child \<noteq> getter_class g \<Longrightarrow>
         S G cfg tag parent_points node_poly g rest consistent report) \<Longrightarrow>
      (class_of child = getter_class g \<Longrightarrow> P G cfg child report) \<Longrightarrow>
      (\<And>b child1 report1 consistent2 report2.
          class_of child = getter_class g \<Longrightarrow>
          validate_consistency G cfg child report = (Inr b, child1, report1) \<Longrightarrow>
          validate_child_coords G cfg tag parent_points node_poly child1 (b \<and> consistent)
            report1 = Inr (consistent2, report2) \<Longrightarrow>
          S G cfg tag parent_points node_poly g rest consistent2 report2) \<Longrightarrow>
      S G cfg tag parent_points node_poly g (child # rest) consistent report"
  shows "P G cfg node report"
    and "Q G cfg node_id node0 report0"
    and "R G cfg tag0 node_id0 parent_points0 node_poly0 H node1 consistent1 report1"
    and "S G cfg tag2 parent_points2 node_poly2 g2 cs2 consistent2 report2"
proof (induct G cfg node report and G cfg node_id node0 report0
    and G cfg tag0 node_id0 parent_points0 node_poly0 H node1 consistent1 report1
    and G cfg tag2 parent_points2 node_poly2 g2 cs2 consistent2 report2
    rule: validate_consistency_validate_node_validate_hierarchy_validate_children.induct)
  case (1 G cfg node report)
  then show ?case by (intro vc) simp
next
  case (2 G cfg node_id node report)
  then show ?case by (intro vn) simp
next
  case (3 G cfg tag node_id parent_points node_poly node consistent report)
  show ?case by (rule nil)
next
  case (4 G cfg tag node_id parent_points node_poly c getter concatenate_with rest node consistent report)
  show ?case
  proof (rule entry, goal_cases)
    case 1
    then show ?case by (rule 4(1))
  next
    case (2 g)
    then show ?case using 4(2) by simp
  next
    case (3 g consistent1 children1 report1 consistent2 report2 consistent3 node3 report3)
    from 3 show ?case
      by (intro 4(3)[where x = "Inr consistent1" and y = "(children1, report1)"
            and ba = "(consistent2, report2)" and yc = "(node3, report3)"]) auto
  qed
next
  case (5 G cfg tag parent_points node_poly g consistent report)
  show ?case by (rule no_children)
next
  case (6 G cfg tag parent_points node_poly g child rest consistent report)
  show ?case
  proof (rule child, goal_cases)
    case 1
    then show ?case by (rule 6(1))
  next
    case 2
    then show ?case using 6(2) by simp
  next
    case (3 b child1 report1 consistent2 report2)
    from 3 show ?case
      by (intro 6(3)[where x = "Inr b" and y = "(child1, report1)" and ba = "(consistent2, report2)"])
        auto
  qed
qed

text \<open>The ways each function can end, one case per path through its body.\<close>

lemma validate_consistency_cases [consumes 1, case_names glyph page element]:
  assumes "validate_consistency G cfg node report = (r, node', report')"
  obtains "isinstance node GlyphType" "r = Inr True" "node' = node" "report' = report"
  | "\<not> isinstance node GlyphType" "isinstance node PageType" "r = Inl AttributeError"
      "node' = node" "report' = report"
  | "\<not> isinstance node GlyphType" "\<not> isinstance node PageType"
      "validate_node G cfg (ID node) node report = (r, node', report')"
  using assms by (auto simp: validate_consistency.simps split: if_splits)

lemma validate_node_cases [consumes 1, case_names coords_raise hierarchy]:
  assumes "validate_node G cfg node_id node report = (r, node', report')"
  obtains e where
      "validate_node_coords G cfg (original_tagname node) node_id node report = Inl e"
      "r = Inl e" "node' = node" "report' = report"
  | consistent parent_points node_poly report1 where
      "validate_node_coords G cfg (original_tagname node) node_id node report =
         Inr (consistent, parent_points, node_poly, report1)"
      "validate_hierarchy G cfg (original_tagname node) node_id parent_points node_poly
         HIERARCHY node consistent report1 = (r, node', report')"
  using assms by (auto simp: validate_node.simps split: sum.splits)

lemma validate_hierarchy_Cons_cases
  [consumes 1, case_names skip no_getter children_raise baseline_raise continue]:
  assumes "validate_hierarchy G cfg tag node_id parent_points node_poly
      ((c, getter, concatenate_with) # rest) node consistent report = (r, node', report')"
  obtains "\<not> isinstance node c"
      "validate_hierarchy G cfg tag node_id parent_points node_poly rest node consistent
         report = (r, node', report')"
  | "isinstance node c" "getter = None" "r = Inl TypeError" "node' = node" "report' = report"
  | g e children1 where "isinstance node c" "getter = Some g"
      "validate_children G cfg tag parent_points node_poly g (children node) consistent
         report = (Inl e, children1, report')"
      "r = Inl e" "node' = set_children children1 node"
  | g consistent1 children1 e where "isinstance node c" "getter = Some g"
      "validate_children G cfg tag parent_points node_poly g (children node) consistent
         report = (Inr consistent1, children1, report')"
      "validate_baseline G cfg node_id parent_points node_poly (set_children children1 node)
         consistent1 report' = Inl e"
      "r = Inl e" "node' = set_children children1 node"
  | g consistent1 children1 report1 consistent2 report2 consistent3 node3 report3 where
      "isinstance node c" "getter = Some g"
      "validate_children G cfg tag parent_points node_poly g (children node) consistent
         report = (Inr consistent1, children1, report1)"
      "validate_baseline G cfg node_id parent_points node_poly (set_children children1 node)
         consistent1 report1 = Inr (consistent2, report2)"
      "validate_text cfg tag node_id concatenate_with
         (getattr (set_children children1 node) g) (set_children children1 node)
         consistent2 report2 = (consistent3, node3, report3)"
      "validate_hierarchy G cfg tag node_id parent_points node_poly rest node3 consistent3
         report3 = (r, node', report')"
  using assms by (auto split: if_splits option.splits sum.splits prod.splits)

lemma validate_children_Cons_cases
  [consumes 1, case_names other child_raise coords_raise continue]:
  assumes "validate_children G cfg tag parent_points node_poly g (child # rest) consistent
      report = (r, cs', report')"
  obtains rest' where "class_of child \<noteq> getter_class g"
      "validate_children G cfg tag parent_points node_poly g rest consistent report =
         (r, rest', report')"
      "cs' = child # rest'"
  | e child1 where "class_of child = getter_class g"
      "validate_consistency G cfg child report = (Inl e, child1, report')"
      "r = Inl e" "cs' = child1 # rest"
  | b child1 e where "class_of child = getter_class g"
      "validate_consistency G cfg child report = (Inr b, child1, report')"
      "validate_child_coords G cfg tag parent_points node_poly child1 (b \<and> consistent)
         report' = Inl e"
      "r = Inl e" "cs' = child1 # rest"
  | b child1 report1 consistent2 report2 rest' where "class_of child = getter_class g"
      "validate_consistency G cfg child report = (Inr b, child1, report1)"
      "validate_child_coords G cfg tag parent_points node_poly child1 (b \<and> consistent)
         report1 = Inr (consistent2, report2)"
      "validate_children G cfg tag parent_points node_poly g rest consistent2 report2 =
         (r, rest', report')"
      "cs' = child1 # rest'"
  using assms by (auto split: if_splits sum.splits prod.splits)


declare validate_hierarchy.simps(2) [simp del] validate_children.simps(2) [simp del]

lemmas validate_simps =
  validate_consistency.simps validate_node.simps validate_hierarchy.simps
  validate_children.simps

section \<open>The frame of a run\<close>

lemma index_set_Unicode [simp]: "index (set_Unicode t x) = index x"
  by (simp add: set_Unicode_def)

lemma set_Unicode_twice [simp]: "set_Unicode u (set_Unicode t x) = set_Unicode u x"
  by (simp add: set_Unicode_def)

lemma length_set_first_index1 [simp]: "length (set_first_index1 t te) = length te"
  by (induction te) auto

lemma filter_set_first_index1 [simp]:
  "(filter (\<lambda>x. index x = Some 1) (set_first_index1 t te) = []) =
   (filter (\<lambda>x. index x = Some 1) te = [])"
  by (induction te) auto

lemma set_first_index1_twice [simp]:
  "set_first_index1 u (set_first_index1 t te) = set_first_index1 u te"
  by (induction te) auto

lemma set_first_index1_Nil [simp]: "(set_first_index1 t te = []) = (te = [])"
  by (cases te) auto

lemma without_text_set_text:
  "TextEquiv n \<noteq> [] \<Longrightarrow> without_text (set_text n t s) = without_text n"
  by (cases n; cases "TextEquiv n")
     (auto simp: set_text_def set_TextEquiv_def Let_def)

lemma children_set_text [simp]: "children (set_text n t s) = children n"
  by (simp add: set_text_def set_TextEquiv_def Let_def)

lemma without_text_sel [simp]:
  "class_of (without_text n) = class_of n" "ID (without_text n) = ID n"
  "Border (without_text n) = Border n" "Coords (without_text n) = Coords n"
  "Baseline (without_text n) = Baseline n"
  "children (without_text n) = map without_text (children n)"
  by (cases n; simp)+

lemma without_text_set_children:
  "map without_text cs = map without_text (children n) \<Longrightarrow>
   without_text (set_children cs n) = without_text n"
  by (cases n) (simp add: set_children_def)

lemma set_children_same [simp]: "set_children (children n) n = n"
  by (cases n) (simp add: set_children_def)

lemma get_text_Nil: "TextEquiv n = [] \<Longrightarrow> get_text n s = []"
  by (simp add: get_text_def)

lemma validate_text_frame:
  assumes "validate_text cfg tag node_id cw cs n c r = (c', n', r')"
  shows "without_text n' = without_text n" and "strictness cfg \<noteq> ''fix'' \<Longrightarrow> n' = n"
    and "children n' = children n"
  using assms
  by (auto simp: validate_text_def Let_def split: option.splits if_splits
      intro!: without_text_set_text dest: get_text_Nil)

lemma validate_without_text:
  "validate_consistency G cfg node report = (r, node', report') \<Longrightarrow>
     without_text node' = without_text node"
  "validate_node G cfg node_id node report = (r, node', report') \<Longrightarrow>
     without_text node' = without_text node"
  "validate_hierarchy G cfg tag node_id parent_points node_poly H node consistent report =
     (r, node', report') \<Longrightarrow> without_text node' = without_text node"
  "validate_children G cfg tag parent_points node_poly g cs consistent report =
     (r, cs', report') \<Longrightarrow> map without_text cs' = map without_text cs"
proof (induct G cfg node report and G cfg node_id node report
    and G cfg tag node_id parent_points node_poly H node consistent report
    and G cfg tag parent_points node_poly g cs consistent report
    arbitrary: r node' report' and r node' report' and r node' report' and r cs' report'
    rule: validate_induct)
  case (consistency G cfg node report)
  from consistency(2) show ?case
    by (cases rule: validate_consistency_cases) (auto dest: consistency(1))
next
  case (node G cfg node_id node report)
  from node(2) show ?case
    by (cases rule: validate_node_cases) (auto dest: node(1))
next
  case (nil G cfg tag node_id parent_points node_poly node consistent report)
  then show ?case by simp
next
  case (entry G cfg tag node_id parent_points node_poly c getter concatenate_with rest node
      consistent report)
  from entry(4) show ?case
  proof (cases rule: validate_hierarchy_Cons_cases)
    case skip
    then show ?thesis by (auto dest: entry(1))
  next
    case no_getter
    then show ?thesis by simp
  next
    case (children_raise g e children1)
    then show ?thesis by (auto dest: entry(2) intro: without_text_set_children)
  next
    case (baseline_raise g consistent1 children1 e)
    then show ?thesis by (auto dest: entry(2) intro: without_text_set_children)
  next
    case (continue g consistent1 children1 report1 consistent2 report2 consistent3 node3 report3)
    from continue have "without_text node' = without_text node3" by (auto dest: entry(3))
    also from continue have "\<dots> = without_text (set_children children1 node)"
      by (auto dest: validate_text_frame(1))
    also from continue have "\<dots> = without_text node"
      by (auto dest: entry(2) intro: without_text_set_children)
    finally show ?thesis .
  qed
next
  case (no_children G cfg tag parent_points node_poly g consistent report)
  then show ?case by simp
next
  case (child G cfg tag parent_points node_poly g child rest consistent report)
  from child(4) show ?case
  proof (cases rule: validate_children_Cons_cases)
    case (other rest')
    then show ?thesis by (auto dest: child(1))
  next
    case (child_raise e child1)
    then show ?thesis by (auto dest: child(2))
  next
    case (coords_raise b child1 e)
    then show ?thesis by (auto dest: child(2))
  next
    case (continue b child1 report1 consistent2 report2 rest')
    then show ?thesis by (auto dest: child(2) child(3))
  qed
qed

lemma validate_unchanged:
  "strictness cfg \<noteq> ''fix'' \<Longrightarrow>
   validate_consistency G cfg node report = (r, node', report') \<Longrightarrow> node' = node"
  "strictness cfg \<noteq> ''fix'' \<Longrightarrow>
   validate_node G cfg node_id node report = (r, node', report') \<Longrightarrow> node' = node"
  "strictness cfg \<noteq> ''fix'' \<Longrightarrow>
   validate_hierarchy G cfg tag node_id parent_points node_poly H node consistent report =
     (r, node', report') \<Longrightarrow> node' = node"
  "strictness cfg \<noteq> ''fix'' \<Longrightarrow>
   validate_children G cfg tag parent_points node_poly g cs consistent report =
     (r, cs', report') \<Longrightarrow> cs' = cs"
proof (induct G cfg node report and G cfg node_id node report
    and G cfg tag node_id parent_points node_poly H node consistent report
    and G cfg tag parent_points node_poly g cs consistent report
    arbitrary: r node' report' and r node' report' and r node' report' and r cs' report'
    rule: validate_induct)
  case (consistency G cfg node report)
  from consistency(3) show ?case
    by (cases rule: validate_consistency_cases) (auto dest: consistency(1)[OF _ _ consistency(2)])
next
  case (node G cfg node_id node report)
  from node(3) show ?case
    by (cases rule: validate_node_cases) (auto dest: node(1)[OF _ node(2)])
next
  case (nil G cfg tag node_id parent_points node_poly node consistent report)
  then show ?case by simp
next
  case (entry G cfg tag node_id parent_points node_poly c getter concatenate_with rest node
      consistent report)
  note nf = entry(4)
  from entry(5) show ?case
  proof (cases rule: validate_hierarchy_Cons_cases)
    case skip
    then show ?thesis by (auto dest: entry(1)[OF _ nf])
  next
    case no_getter
    then show ?thesis by simp
  next
    case (children_raise g e children1)
    then show ?thesis by (auto dest: entry(2)[OF _ _ nf])
  next
    case (baseline_raise g consistent1 children1 e)
    then show ?thesis by (auto dest: entry(2)[OF _ _ nf])
  next
    case (continue g consistent1 children1 report1 consistent2 report2 consistent3 node3 report3)
    from continue have "children1 = children node" by (auto dest: entry(2)[OF _ _ nf])
    moreover from continue nf have "node3 = set_children children1 node"
      by (auto dest: validate_text_frame(2))
    moreover from continue have "node' = node3" by (auto dest: entry(3)[OF _ _ _ _ _ nf])
    ultimately show ?thesis by simp
  qed
next
  case (no_children G cfg tag parent_points node_poly g consistent report)
  then show ?case by simp
next
  case (child G cfg tag parent_points node_poly g child rest consistent report)
  note nf = child(4)
  from child(5) show ?case
  proof (cases rule: validate_children_Cons_cases)
    case (other rest')
    then show ?thesis by (auto dest: child(1)[OF _ nf])
  next
    case (child_raise e child1)
    then show ?thesis by (auto dest: child(2)[OF _ nf])
  next
    case (coords_raise b child1 e)
    then show ?thesis by (auto dest: child(2)[OF _ nf])
  next
    case (continue b child1 report1 consistent2 report2 rest')
    then show ?thesis by (auto dest: child(2)[OF _ nf] child(3)[OF _ _ _ nf])
  qed
qed

section \<open>Every appended error is justified\<close>

lemma extends_refl [simp]: "extends G cfg r r"
  by (simp add: extends_def)

lemma extends_trans: "extends G cfg r r' \<Longrightarrow> extends G cfg r' r'' \<Longrightarrow> extends G cfg r r''"
  by (auto simp: extends_def)

lemma extends_add: "sound_error G cfg e \<Longrightarrow> extends G cfg r (add_error r e)"
  by (simp add: extends_def add_error_def)

lemma validate_node_coords_sound:
  assumes "validate_node_coords G cfg tag node_id node report =
      Inr (consistent, parent_points, node_poly, report')"
  shows "extends G cfg report report'"
    and "node_poly \<noteq> None \<Longrightarrow> Polygon G parent_points = node_poly"
  using assms
  by (auto simp: validate_node_coords_def sound_error_def split: if_splits option.splits
      intro!: extends_add)

lemma validate_child_coords_sound:
  assumes "validate_child_coords G cfg tag parent_points node_poly child consistent report =
      Inr (consistent', report')"
    and "node_poly \<noteq> None \<Longrightarrow> Polygon G parent_points = node_poly"
  shows "extends G cfg report report'"
  using assms
  by (auto simp: validate_child_coords_def sound_error_def truth_def
      split: if_splits option.splits intro!: extends_add)

lemma validate_baseline_sound:
  assumes "validate_baseline G cfg node_id parent_points node_poly node consistent report =
      Inr (consistent', report')"
    and "node_poly \<noteq> None \<Longrightarrow> Polygon G parent_points = node_poly"
  shows "extends G cfg report report'"
  using assms
  by (auto simp: validate_baseline_def sound_error_def split: if_splits option.splits
      intro!: extends_add)

lemma validate_text_sound:
  assumes "validate_text cfg tag node_id cw cs node consistent report =
      (consistent', node', report')"
  shows "extends G cfg report report'"
  using assms
  by (auto simp: validate_text_def sound_error_def Let_def split: if_splits option.splits
      intro!: extends_add)

lemma validate_sound:
  "validate_consistency G cfg node report = (r, node', report') \<Longrightarrow>
     extends G cfg report report'"
  "validate_node G cfg node_id node report = (r, node', report') \<Longrightarrow>
     extends G cfg report report'"
  "(node_poly \<noteq> None \<Longrightarrow> Polygon G parent_points = node_poly) \<Longrightarrow>
   validate_hierarchy G cfg tag node_id parent_points node_poly H node consistent report =
     (r, node', report') \<Longrightarrow> extends G cfg report report'"
  "(node_poly \<noteq> None \<Longrightarrow> Polygon G parent_points = node_poly) \<Longrightarrow>
   validate_children G cfg tag parent_points node_poly g cs consistent report =
     (r, cs', report') \<Longrightarrow> extends G cfg report report'"
proof (induct G cfg node report and G cfg node_id node report
    and G cfg tag node_id parent_points node_poly H node consistent report
    and G cfg tag parent_points node_poly g cs consistent report
    arbitrary: r node' report' and r node' report' and r node' report' and r cs' report'
    rule: validate_induct)
  case (consistency G cfg node report)
  from consistency(2) show ?case
    by (cases rule: validate_consistency_cases) (auto dest: consistency(1))
next
  case (node G cfg node_id node report)
  from node(2) show ?case
  proof (cases rule: validate_node_cases)
    case (coords_raise e)
    then show ?thesis by simp
  next
    case (hierarchy consistent parent_points node_poly report1)
    from node(1)[OF hierarchy(1) _ hierarchy(2)] validate_node_coords_sound[OF hierarchy(1)]
    show ?thesis by (auto intro: extends_trans)
  qed
next
  case (nil G cfg tag node_id parent_points node_poly node consistent report)
  then show ?case by simp
next
  case (entry G cfg tag node_id parent_points node_poly c getter concatenate_with rest node
      consistent report)
  note np = entry(4)
  from entry(5) show ?case
  proof (cases rule: validate_hierarchy_Cons_cases)
    case skip
    then show ?thesis using entry(1) np by blast
  next
    case no_getter
    then show ?thesis by simp
  next
    case (children_raise g e children1)
    then show ?thesis using entry(2) np by blast
  next
    case (baseline_raise g consistent1 children1 e)
    then show ?thesis using entry(2) np by blast
  next
    case (continue g consistent1 children1 report1 consistent2 report2 consistent3 node3 report3)
    have "extends G cfg report report1" using continue entry(2) np by blast
    moreover have "extends G cfg report1 report2"
      using continue(4) np by (rule validate_baseline_sound)
    moreover have "extends G cfg report2 report3"
      using continue(5) by (rule validate_text_sound)
    moreover have "extends G cfg report3 report'"
      using continue entry(3) np by blast
    ultimately show ?thesis by (blast intro: extends_trans)
  qed
next
  case (no_children G cfg tag parent_points node_poly g consistent report)
  then show ?case by simp
next
  case (child G cfg tag parent_points node_poly g child rest consistent report)
  note np = child(4)
  from child(5) show ?case
  proof (cases rule: validate_children_Cons_cases)
    case (other rest')
    then show ?thesis using child(1) np by blast
  next
    case (child_raise e child1)
    then show ?thesis using child(2) by blast
  next
    case (coords_raise b child1 e)
    then show ?thesis using child(2) by blast
  next
    case (continue b child1 report1 consistent2 report2 rest')
    have "extends G cfg report report1" using continue child(2) by blast
    moreover have "extends G cfg report1 report2"
      using continue(3) np by (rule validate_child_coords_sound)
    moreover have "extends G cfg report2 report'"
      using continue child(3) np by blast
    ultimately show ?thesis by (blast intro: extends_trans)
  qed
qed

section \<open>The text check of a node\<close>

lemma validate_child_coords_mono:
  "validate_child_coords G cfg tag pp np child c r = Inr (c', r') \<Longrightarrow> c' \<Longrightarrow> c"
  by (auto simp: validate_child_coords_def split: if_splits option.splits)

lemma validate_baseline_mono:
  "validate_baseline G cfg nid pp np node c r = Inr (c', r') \<Longrightarrow> c' \<Longrightarrow> c"
  by (auto simp: validate_baseline_def split: if_splits option.splits)

lemma validate_text_mono:
  "validate_text cfg tag nid cw cs node c r = (c', node', r') \<Longrightarrow> c' \<Longrightarrow> c"
  by (auto simp: validate_text_def Let_def split: if_splits option.splits)

lemma validate_children_mono:
  "validate_children G cfg tag pp np g cs c r = (Inr b, cs', r') \<Longrightarrow> b \<Longrightarrow> c"
proof (induction cs arbitrary: c r cs' r')
  case Nil
  then show ?case by simp
next
  case (Cons child rest)
  from Cons.prems(1) show ?case
  proof (cases rule: validate_children_Cons_cases)
    case (other rest')
    then show ?thesis using Cons.IH Cons.prems(2) by blast
  next
    case (child_raise e child1)
    then show ?thesis by simp
  next
    case (coords_raise b1 child1 e)
    then show ?thesis by simp
  next
    case (continue b1 child1 report1 consistent2 report2 rest')
    from continue(4) Cons.prems(2) have consistent2 by (rule Cons.IH)
    with continue(3) have "b1 \<and> c" by (rule validate_child_coords_mono)
    then show ?thesis by simp
  qed
qed

lemma validate_hierarchy_mono:
  "validate_hierarchy G cfg tag nid pp np H node c r = (Inr b, node', r') \<Longrightarrow> b \<Longrightarrow> c"
proof (induction H arbitrary: node c r)
  case Nil
  then show ?case by simp
next
  case (Cons e H)
  obtain cl getter cw where e: "e = (cl, getter, cw)" by (cases e)
  from Cons.prems(1)[unfolded e] show ?case
  proof (cases rule: validate_hierarchy_Cons_cases)
    case skip
    then show ?thesis using Cons.IH Cons.prems(2) by blast
  next
    case no_getter
    then show ?thesis by simp
  next
    case (children_raise g e children1)
    then show ?thesis by simp
  next
    case (baseline_raise g consistent1 children1 e)
    then show ?thesis by simp
  next
    case (continue g c1 cs1 r1 c2 r2 c3 n3 r3)
    from continue(6) Cons.prems(2) have c3 by (rule Cons.IH)
    with continue(5) have c2 by (rule validate_text_mono)
    with continue(4) have c1 by (rule validate_baseline_mono)
    with continue(3) show ?thesis by (rule validate_children_mono)
  qed
qed

lemma validate_hierarchy_no_match:
  "\<forall>e\<in>set H. \<not> isinstance node (fst e) \<Longrightarrow>
   validate_hierarchy G cfg tag nid pp np H node c r = (Inr c, node, r)"
proof (induction H)
  case Nil
  show ?case by simp
next
  case (Cons e H)
  obtain cl getter cw where e: "e = (cl, getter, cw)" by (cases e)
  with Cons show ?case by (simp add: validate_hierarchy.simps(2))
qed

lemma text_entry_reached:
  assumes nf: "strictness cfg \<noteq> ''fix''"
    and np: "np \<noteq> None \<Longrightarrow> Polygon G pp = np"
    and mem: "(c, Some g, Some sep) \<in> set H"
    and inst: "isinstance node c"
    and run: "validate_hierarchy G cfg tag nid pp np H node c0 r = (Inr b, node', r')"
  shows "\<exists>c1 r1 c2 r2.
      validate_text cfg tag nid (Some sep) (getattr node g) node c1 r1 = (c2, node, r2)
      \<and> extends G cfg r r1 \<and> extends G cfg r2 r' \<and> (b \<longrightarrow> c2)"
  using mem run
proof (induction H arbitrary: c0 r)
  case Nil
  then show ?case by simp
next
  case (Cons e H)
  obtain cl getter cw where e: "e = (cl, getter, cw)" by (cases e)
  from Cons.prems(2)[unfolded e] show ?case
  proof (cases rule: validate_hierarchy_Cons_cases)
    case skip
    with inst Cons.prems(1) e have "(c, Some g, Some sep) \<in> set H" by auto
    from Cons.IH[OF this skip(2)] show ?thesis .
  next
    case no_getter
    then show ?thesis by simp
  next
    case (children_raise g e children1)
    then show ?thesis by simp
  next
    case (baseline_raise g consistent1 children1 e)
    then show ?thesis by simp
  next
    case (continue g1 c1 cs1 r1 c2 r2 c3 n3 r3)
    from nf continue(3) have cs1: "cs1 = children node" by (rule validate_unchanged(4))
    with nf continue(5) have n3: "n3 = node" by (auto dest: validate_text_frame(2))
    have e1: "extends G cfg r r1" using np continue(3) by (rule validate_sound(4))
    have e2: "extends G cfg r1 r2" using continue(4) np by (rule validate_baseline_sound)
    have e3: "extends G cfg r2 r3" using continue(5) by (rule validate_text_sound)
    have e4: "extends G cfg r3 r'" using np continue(6) by (rule validate_sound(3))
    show ?thesis
    proof (cases "(c, Some g, Some sep) = (cl, getter, cw)")
      case True
      with continue(2,5) cs1 n3
      have "validate_text cfg tag nid (Some sep) (getattr node g) node c2 r2 = (c3, node, r3)"
        by simp
      moreover have "b \<longrightarrow> c3" using continue(6) validate_hierarchy_mono by blast
      ultimately show ?thesis using e1 e2 e4 by (blast intro: extends_trans)
    next
      case False
      with Cons.prems(1) e have "(c, Some g, Some sep) \<in> set H" by auto
      from Cons.IH[OF this continue(6)[unfolded n3]]
      obtain d1 s1 d2 s2 where
        "validate_text cfg tag nid (Some sep) (getattr node g) node d1 s1 = (d2, node, s2)"
        "extends G cfg r3 s1" "extends G cfg s2 r'" "b \<longrightarrow> d2" by blast
      with e1 e2 e3 show ?thesis by (blast intro: extends_trans)
    qed
  qed
qed

lemma text_entry_not_leaf:
  assumes "(c, Some g, Some sep) \<in> set HIERARCHY" and "isinstance node c"
  shows "\<not> isinstance node GlyphType" and "\<not> isinstance node PageType"
  using assms by (auto simp: HIERARCHY_def isinstance_def region_class_def)

lemma text_entry_at_node:
  assumes nf: "strictness cfg \<noteq> ''fix''"
    and mem: "(c, Some g, Some sep) \<in> set HIERARCHY"
    and inst: "isinstance node c"
    and run: "validate_consistency G cfg node r = (Inr b, node', r')"
  shows "\<exists>c1 r1 c2 r2.
      validate_text cfg (original_tagname node) (ID node) (Some sep) (getattr node g) node c1 r1
        = (c2, node, r2)
      \<and> extends G cfg r r1 \<and> extends G cfg r2 r' \<and> (b \<longrightarrow> c2)"
  using run
proof (cases rule: validate_consistency_cases)
  case glyph
  with text_entry_not_leaf[OF mem inst] show ?thesis by simp
next
  case page
  then show ?thesis by simp
next
  case element
  from element(3) show ?thesis
  proof (cases rule: validate_node_cases)
    case (coords_raise e)
    then show ?thesis by simp
  next
    case (hierarchy consistent parent_points node_poly report1)
    note vs = validate_node_coords_sound[OF hierarchy(1)]
    from text_entry_reached[OF nf vs(2) mem inst hierarchy(2)] vs(1)
    show ?thesis by (blast intro: extends_trans)
  qed
qed

lemma extends_appended:
  "extends G cfg r r' \<Longrightarrow> \<exists>es. r' = r @ es \<and> (\<forall>e\<in>set es. sound_error G cfg e)"
  by (auto simp: extends_def list_all_iff)

lemma extends_mem:
  assumes "extends G cfg r r1" "extends G cfg (add_error r1 e) r'" "r' = r @ es"
  shows "e \<in> set es"
  using assms by (auto simp: extends_def add_error_def)


lemma text_error_appended:
  assumes strict: "strictness cfg = ''strict''"
    and entry: "(c, Some g, Some sep) \<in> set HIERARCHY" "isinstance node c"
    and nonempty: "concatenate (getattr node g) sep (strategy cfg) \<noteq> []"
      "get_text node (strategy cfg) \<noteq> []"
    and differ: "concatenate (getattr node g) sep (strategy cfg) \<noteq> get_text node (strategy cfg)"
    and run: "validate_consistency G cfg node report = (Inr consistent, node', report @ es)"
  shows "ConsistencyError (original_tagname node) (ID node) (get_text node (strategy cfg))
      (concatenate (getattr node g) sep (strategy cfg)) \<in> set es"
proof -
  from strict have nf: "strictness cfg \<noteq> ''fix''" by simp
  from text_entry_at_node[OF nf entry run] obtain c1 r1 c2 r2 where
    vt: "validate_text cfg (original_tagname node) (ID node) (Some sep) (getattr node g) node
      c1 r1 = (c2, node, r2)"
    and e1: "extends G cfg report r1" and e2: "extends G cfg r2 (report @ es)" by blast
  from vt strict nonempty differ
  have "r2 = add_error r1 (ConsistencyError (original_tagname node) (ID node)
      (get_text node (strategy cfg)) (concatenate (getattr node g) sep (strategy cfg)))"
    by (auto simp: validate_text_def Let_def split: if_splits)
  with e1 e2 show ?thesis by (auto intro: extends_mem)
qed

lemma text_error_differs:
  assumes run: "validate_consistency G cfg node report = (r, node', report @ es)"
  shows "ConsistencyError tag i text text \<notin> set es"
proof
  assume mem: "ConsistencyError tag i text text \<in> set es"
  from run have "extends G cfg report (report @ es)" by (rule validate_sound(1))
  then have "\<forall>e\<in>set es. sound_error G cfg e" by (auto dest: extends_appended)
  with mem have "sound_error G cfg (ConsistencyError tag i text text)" by blast
  then show False by (simp add: sound_error_def)
qed

lemma text_error_lax:
  assumes lax: "strictness cfg = ''lax''"
    and run: "validate_consistency G cfg node report = (r, node', report @ es)"
    and same: "compare_without_whitespace expected actual"
  shows "ConsistencyError tag i actual expected \<notin> set es"
proof
  assume mem: "ConsistencyError tag i actual expected \<in> set es"
  from run have "extends G cfg report (report @ es)" by (rule validate_sound(1))
  then have "\<forall>e\<in>set es. sound_error G cfg e" by (auto dest: extends_appended)
  with mem have "sound_error G cfg (ConsistencyError tag i actual expected)" by blast
  with lax same show False by (simp add: sound_error_def)
qed

lemma concatenate_foo_bar:
  assumes "map (\<lambda>line. get_text line s) lines = [''foo'', ''bar'']"
  shows "concatenate lines ''\<newline>'' s = ''foo\<newline>bar''"
  using assms by (simp add: concatenate_def strip_def isspace_def)


section \<open>A page without a border\<close>

lemma validate_children_without_polygon:
  "validate_children G cfg tag pp None g cs c r = traverse_children G cfg g cs c r"
  by (induction cs arbitrary: c r)
     (auto simp: validate_children.simps(2) validate_child_coords_def truth_def
        split: prod.splits sum.splits)

lemma isinstance_set_children [simp]: "isinstance (set_children cs n) c = isinstance n c"
  by (simp add: isinstance_def set_children_def)

lemma class_of_set_children [simp]: "class_of (set_children cs n) = class_of n"
  by (simp add: set_children_def)

lemma children_set_children [simp]: "children (set_children cs n) = cs"
  by (simp add: set_children_def)

lemma set_children_twice [simp]: "set_children cs (set_children ds n) = set_children cs n"
  by (simp add: set_children_def)

lemma validate_hierarchy_without_polygon:
  assumes "class_of page = PageType"
    and "\<forall>e\<in>set H. fst e = PageType \<longrightarrow> fst (snd e) \<noteq> None \<and> snd (snd e) = None"
  shows "validate_hierarchy G cfg tag nid pp None H page c r =
    traverse_regions G cfg (map (\<lambda>e. the (fst (snd e))) (filter (\<lambda>e. isinstance page (fst e)) H))
      page c r"
  using assms
proof (induction H arbitrary: page c r)
  case Nil
  show ?case by simp
next
  case (Cons e H)
  obtain cl getter cw where e: "e = (cl, getter, cw)" by (cases e)
  show ?case
  proof (cases "isinstance page cl")
    case False
    with Cons e show ?thesis by (simp add: validate_hierarchy.simps(2))
  next
    case True
    with Cons.prems(1) have cl: "cl = PageType" by (auto simp: isinstance_def region_class_def)
    with Cons.prems(2) e obtain g where g: "getter = Some g" and cw: "cw = None" by auto
    have nb: "validate_baseline G cfg nid pp None (set_children cs page) c' r' = Inr (c', r')"
      for cs c' r'
      using Cons.prems(1) by (simp add: validate_baseline_def isinstance_def)
    have ih: "validate_hierarchy G cfg tag nid pp None H (set_children cs page) c' r' =
      traverse_regions G cfg
        (map (\<lambda>e. the (fst (snd e))) (filter (\<lambda>e. isinstance page (fst e)) H))
        (set_children cs page) c' r'" for cs c' r'
      using Cons.IH[of "set_children cs page" c' r'] Cons.prems by simp
    show ?thesis
      using True e g cw
      by (auto simp: validate_hierarchy.simps(2) validate_children_without_polygon nb ih
          validate_text_def split: prod.splits sum.splits)
  qed
qed

lemma page_getters:
  "class_of page = PageType \<Longrightarrow>
   map (\<lambda>e. the (fst (snd e))) (filter (\<lambda>e. isinstance page (fst e)) HIERARCHY) = region_getters"
  by (simp add: HIERARCHY_def isinstance_def region_class_def region_getters_def)


section \<open>Repair\<close>

lemma text_entry_last_HIERARCHY: "text_entry_last node HIERARCHY"
  by (cases "class_of node") (simp_all add: HIERARCHY_def isinstance_def region_class_def)

lemma isinstance_cong: "class_of m = class_of n \<Longrightarrow> isinstance m c = isinstance n c"
  by (simp add: isinstance_def)

lemma text_entry_last_isinstance:
  "isinstance m = isinstance n \<Longrightarrow> text_entry_last m H = text_entry_last n H"
proof (induction n H rule: text_entry_last.induct)
  case (1 n)
  show ?case by simp
next
  case (2 n c g cw H)
  show ?case
  proof (cases "isinstance n c \<and> cw \<noteq> None")
    case True
    with 2(2) show ?thesis by simp
  next
    case False
    with 2 show ?thesis by auto
  qed
qed

lemma text_entry_last_cong:
  "class_of m = class_of n \<Longrightarrow> text_entry_last m H = text_entry_last n H"
  by (rule text_entry_last_isinstance) (auto simp: isinstance_def)

lemma dropWhile_rev_dropWhile:
  "dropWhile P (rev (dropWhile P (rev (dropWhile P xs)))) = rev (dropWhile P (rev (dropWhile P xs)))"
proof -
  define ys where "ys = dropWhile P xs"
  define zs where "zs = rev (dropWhile P (rev ys))"
  have hd: "ys = [] \<or> \<not> P (hd ys)" unfolding ys_def using hd_dropWhile[of P xs] by blast
  have "\<exists>ws. ys = zs @ ws"
  proof -
    have "rev ys = takeWhile P (rev ys) @ dropWhile P (rev ys)" by simp
    then have "ys = rev (dropWhile P (rev ys)) @ rev (takeWhile P (rev ys))"
      by (metis rev_append rev_rev_ident)
    then show ?thesis unfolding zs_def by blast
  qed
  then obtain ws where ys: "ys = zs @ ws" by blast
  have "zs = [] \<or> \<not> P (hd zs)"
  proof (cases zs)
    case Nil
    then show ?thesis by simp
  next
    case (Cons z zs')
    with ys hd show ?thesis by auto
  qed
  then have "dropWhile P zs = zs" by (cases zs) auto
  then show ?thesis unfolding zs_def ys_def .
qed

lemma strip_strip [simp]: "strip (strip s) = strip s"
  by (simp add: strip_def dropWhile_rev_dropWhile)

lemma strip_concatenate [simp]: "strip (concatenate cs sep s) = concatenate cs sep s"
  by (simp add: concatenate_def)

lemma hd_set_first_index1:
  "filter (\<lambda>x. index x = Some 1) te \<noteq> [] \<Longrightarrow>
   Unicode (hd (filter (\<lambda>x. index x = Some 1) (set_first_index1 t te))) = t"
  by (induction te) (auto simp: set_Unicode_def)

lemma get_text_set_text:
  "TextEquiv n \<noteq> [] \<Longrightarrow> get_text (set_text n t s) s' = strip (strip t)"
  using filter_set_first_index1[of "strip t" "TextEquiv n"]
  by (cases "TextEquiv n")
     (auto simp: get_text_def set_text_def set_TextEquiv_def Let_def set_Unicode_def
        hd_set_first_index1 simp del: filter_set_first_index1)

lemma get_text_set_children [simp]: "get_text (set_children cs n) s = get_text n s"
  by (simp add: get_text_def set_children_def)

lemma getattr_set_text [simp]: "getattr (set_text n t s) g = getattr n g"
  by (simp add: getattr_def)

lemma class_of_set_text [simp]: "class_of (set_text n t s) = class_of n"
  by (simp add: set_text_def set_TextEquiv_def Let_def)

lemma validate_text_fix:
  assumes "strictness cfg = ''fix''"
    and "validate_text cfg tag nid (Some sep) (getattr n g) n c r = (c', n', r')"
  shows "get_text n' (strategy cfg) =
      (if concatenate (getattr n' g) sep (strategy cfg) \<noteq> [] \<and> get_text n (strategy cfg) \<noteq> []
       then concatenate (getattr n' g) sep (strategy cfg) else get_text n (strategy cfg))"
    and "class_of n' = class_of n"
proof -
  show "class_of n' = class_of n"
    using assms by (auto simp: validate_text_def Let_def split: if_splits)
  show "get_text n' (strategy cfg) =
      (if concatenate (getattr n' g) sep (strategy cfg) \<noteq> [] \<and> get_text n (strategy cfg) \<noteq> []
       then concatenate (getattr n' g) sep (strategy cfg) else get_text n (strategy cfg))"
  proof (cases "concatenate (getattr n g) sep (strategy cfg) \<noteq> []
      \<and> get_text n (strategy cfg) \<noteq> []
      \<and> concatenate (getattr n g) sep (strategy cfg) \<noteq> get_text n (strategy cfg)")
    case True
    then have "TextEquiv n \<noteq> []" by (auto dest: get_text_Nil)
    moreover from True assms
    have "n' = set_text n (concatenate (getattr n g) sep (strategy cfg)) (strategy cfg)"
      by (auto simp: validate_text_def Let_def)
    ultimately show ?thesis using True by (simp add: get_text_set_text)
  next
    case False
    with assms have "n' = n" by (auto simp: validate_text_def Let_def split: if_splits)
    with False show ?thesis by auto
  qed
qed

lemma validate_text_None [simp]:
  "validate_text cfg tag nid None cs n c r = (c, n, r)"
  by (simp add: validate_text_def)

lemma fix_text_entry:
  assumes fx: "strictness cfg = ''fix''"
    and last: "text_entry_last node H"
    and mem: "(c, Some g, Some sep) \<in> set H"
    and inst: "isinstance node c"
    and run: "validate_hierarchy G cfg tag nid pp np H node c0 r = (Inr b, node', r')"
  shows "get_text node' (strategy cfg) =
      (if concatenate (getattr node' g) sep (strategy cfg) \<noteq> []
          \<and> get_text node (strategy cfg) \<noteq> []
       then concatenate (getattr node' g) sep (strategy cfg) else get_text node (strategy cfg))"
  using last mem inst run
proof (induction H arbitrary: node c0 r)
  case Nil
  then show ?case by simp
next
  case (Cons e H)
  obtain cl getter cw where e: "e = (cl, getter, cw)" by (cases e)
  from Cons.prems(4)[unfolded e] show ?case
  proof (cases rule: validate_hierarchy_Cons_cases)
    case skip
    with Cons.prems e have "text_entry_last node H" "(c, Some g, Some sep) \<in> set H" by auto
    from Cons.IH[OF this Cons.prems(3) skip(2)] show ?thesis .
  next
    case no_getter
    then show ?thesis by simp
  next
    case (children_raise g e children1)
    then show ?thesis by simp
  next
    case (baseline_raise g consistent1 children1 e)
    then show ?thesis by simp
  next
    case (continue g1 c1 cs1 r1 c2 r2 c3 n3 r3)
    show ?thesis
    proof (cases cw)
      case None
      with continue(5) have n3: "n3 = set_children cs1 node" by simp
      from None Cons.prems(1,2) e continue(1)
      have "text_entry_last node H" "(c, Some g, Some sep) \<in> set H" by auto
      with n3 have "text_entry_last n3 H"
        by (simp add: text_entry_last_cong[of "set_children cs1 node" node])
      moreover from n3 Cons.prems(3) have "isinstance n3 c" by simp
      ultimately have "get_text node' (strategy cfg) =
        (if concatenate (getattr node' g) sep (strategy cfg) \<noteq> []
            \<and> get_text n3 (strategy cfg) \<noteq> []
         then concatenate (getattr node' g) sep (strategy cfg) else get_text n3 (strategy cfg))"
        using \<open>(c, Some g, Some sep) \<in> set H\<close> continue(6) by (intro Cons.IH)
      with n3 show ?thesis by simp
    next
      case (Some sep1)
      with Cons.prems(1) e continue(1)
      have nomatch: "\<forall>e\<in>set H. \<not> isinstance node (fst e)" by simp
      with Cons.prems(2,3) e have "(c, Some g, Some sep) = (cl, getter, cw)" by force
      with continue(2) Some have eq: "g1 = g" "sep1 = sep" by simp_all
      note vt = validate_text_fix[OF fx continue(5)[unfolded Some eq]]
      from vt(2) have "class_of n3 = class_of node" by simp
      with nomatch have "\<forall>e\<in>set H. \<not> isinstance n3 (fst e)"
        by (simp add: isinstance_cong[of n3 node])
      then have "validate_hierarchy G cfg tag nid pp np H n3 c3 r3 = (Inr c3, n3, r3)"
        by (rule validate_hierarchy_no_match)
      with continue(6) have "node' = n3" by simp
      with vt(1) show ?thesis by simp
    qed
  qed
qed


section \<open>Two runs on similar trees\<close>

text \<open>
  A run on a tree and a run on a similar tree, from any two reports, end alike: both
  raise the same exception or both return, and both append the same errors.
\<close>

lemma same_raise_simps [simp]:
  "same_raise (Inl e) o2 = (o2 = Inl e)"
  "same_raise (Inr b) (Inr b2)"
  "\<not> same_raise (Inr b) (Inl e)"
  by (simp_all add: same_raise_def)

lemma same_raise_Inr: "same_raise (Inr b) o2 \<Longrightarrow> \<exists>b2. o2 = Inr b2"
  by (cases o2) simp_all

lemma similar_refl [simp]: "similar cfg n n"
  by (simp add: similar_def)

lemma similar_sym: "similar cfg m n \<Longrightarrow> similar cfg n m"
  by (simp add: similar_def split: if_splits)

lemma similar_trans: "similar cfg l m \<Longrightarrow> similar cfg m n \<Longrightarrow> similar cfg l n"
  by (simp add: similar_def split: if_splits)

lemma without_text_eq_sel:
  assumes "without_text m = without_text n"
  shows "class_of m = class_of n" "ID m = ID n" "Border m = Border n" "Coords m = Coords n"
    "Baseline m = Baseline n" "map without_text (children m) = map without_text (children n)"
  using assms by (metis without_text_sel)+

lemma similar_sel:
  assumes "similar cfg m n"
  shows "class_of m = class_of n" "ID m = ID n" "Border m = Border n" "Coords m = Coords n"
    "Baseline m = Baseline n"
  using assms by (auto simp: similar_def dest: without_text_eq_sel split: if_splits)

lemma similar_list:
  "list_all2 (similar cfg) cs ds =
     (if strictness cfg = ''fix'' then map without_text cs = map without_text ds else cs = ds)"
proof -
  have "list_all2 (\<lambda>a b. without_text a = without_text b) cs ds =
      (map without_text cs = map without_text ds)"
    by (induction cs arbitrary: ds) (auto simp: list_all2_Cons1)
  moreover have "list_all2 (=) cs ds = (cs = ds)" by (simp add: list.rel_eq)
  ultimately show ?thesis by (auto simp: similar_def[abs_def])
qed

lemma similar_children: "similar cfg m n \<Longrightarrow> list_all2 (similar cfg) (children m) (children n)"
  by (auto simp: similar_list similar_def dest: without_text_eq_sel split: if_splits)

lemma similar_set_children:
  "similar cfg m n \<Longrightarrow> list_all2 (similar cfg) cs ds \<Longrightarrow>
   similar cfg (set_children cs m) (set_children ds n)"
  by (cases m; cases n) (auto simp: similar_list similar_def set_children_def split: if_splits)

lemma similar_after_consistency:
  assumes "similar cfg n m" "validate_consistency G cfg n r = (o1, n', r')"
    "validate_consistency G cfg m r2 = (o2, m', r2')"
  shows "similar cfg n' m'"
  using assms validate_without_text(1)[OF assms(2)] validate_without_text(1)[OF assms(3)]
  by (auto simp: similar_def dest: validate_unchanged(1) split: if_splits)

lemma similar_result:
  assumes "validate_consistency G cfg n r = (o1, n', r')"
  shows "similar cfg n n'"
  using assms validate_without_text(1)[OF assms]
  by (auto simp: similar_def dest: validate_unchanged(1))

lemma similar_after_children:
  assumes "list_all2 (similar cfg) cs ds"
    "validate_children G cfg tag pp np g cs c r = (o1, cs', r')"
    "validate_children G cfg tag pp np g ds c2 r2 = (o2, ds', r2')"
  shows "list_all2 (similar cfg) cs' ds'"
  using assms validate_without_text(4)[OF assms(2)] validate_without_text(4)[OF assms(3)]
  by (auto simp: similar_list dest: validate_unchanged(4) split: if_splits)

lemma similar_after_text:
  assumes "similar cfg n m" "validate_text cfg tag nid cw cs n c r = (c', n', r')"
    "validate_text cfg tag nid cw ds m c2 r2 = (c2', m', r2')"
  shows "similar cfg n' m'"
  using assms validate_text_frame(1)[OF assms(2)] validate_text_frame(1)[OF assms(3)]
  by (auto simp: similar_def dest: validate_text_frame(2) split: if_splits)

lemma validate_node_coords_two:
  assumes "class_of m = class_of n" "Border m = Border n" "Coords m = Coords n"
  shows "(\<exists>e. validate_node_coords G cfg tag nid n r = Inl e
            \<and> validate_node_coords G cfg tag nid m r2 = Inl e)
       \<or> (\<exists>c pp np es. validate_node_coords G cfg tag nid n r = Inr (c, pp, np, r @ es)
            \<and> validate_node_coords G cfg tag nid m r2 = Inr (c, pp, np, r2 @ es))"
  using assms
  by (auto simp: validate_node_coords_def add_error_def isinstance_def split: option.splits)

lemma validate_child_coords_two:
  assumes "class_of d = class_of a" "ID d = ID a" "Coords d = Coords a"
  shows "(\<exists>e. validate_child_coords G cfg tag pp np a c r = Inl e
            \<and> validate_child_coords G cfg tag pp np d c2 r2 = Inl e)
       \<or> (\<exists>c' c2' es. validate_child_coords G cfg tag pp np a c r = Inr (c', r @ es)
            \<and> validate_child_coords G cfg tag pp np d c2 r2 = Inr (c2', r2 @ es))"
  using assms
  by (auto simp: validate_child_coords_def add_error_def original_tagname_def
      split: option.splits)

lemma validate_baseline_two:
  assumes "class_of m = class_of n" "Baseline m = Baseline n"
  shows "(\<exists>e. validate_baseline G cfg nid pp np n c r = Inl e
            \<and> validate_baseline G cfg nid pp np m c2 r2 = Inl e)
       \<or> (\<exists>c' c2' es. validate_baseline G cfg nid pp np n c r = Inr (c', r @ es)
            \<and> validate_baseline G cfg nid pp np m c2 r2 = Inr (c2', r2 @ es))"
  using assms
  by (auto simp: validate_baseline_def add_error_def isinstance_def split: option.splits)

lemma validate_text_two:
  assumes "similar cfg n m" "strictness cfg \<noteq> ''fix'' \<Longrightarrow> cs = ds"
  shows "\<exists>c' n' c2' m' es. validate_text cfg tag nid cw cs n c r = (c', n', r @ es)
            \<and> validate_text cfg tag nid cw ds m c2 r2 = (c2', m', r2 @ es)"
  using assms
  by (cases "strictness cfg = ''fix''")
     (auto simp: validate_text_def Let_def add_error_def similar_def split: option.splits)

lemma set_children_sel [simp]:
  "ID (set_children cs n) = ID n" "Border (set_children cs n) = Border n"
  "Coords (set_children cs n) = Coords n" "Baseline (set_children cs n) = Baseline n"
  "TextEquiv (set_children cs n) = TextEquiv n"
  by (simp_all add: set_children_def)

lemma validate_similar:
  "validate_consistency G cfg n r = (o1, n', r') \<Longrightarrow> similar cfg n m \<Longrightarrow>
     \<exists>o2 m' es. r' = r @ es \<and> validate_consistency G cfg m r2 = (o2, m', r2 @ es)
       \<and> same_raise o1 o2"
  "validate_node G cfg nid n r = (o1, n', r') \<Longrightarrow> similar cfg n m \<Longrightarrow>
     \<exists>o2 m' es. r' = r @ es \<and> validate_node G cfg nid m r2 = (o2, m', r2 @ es)
       \<and> same_raise o1 o2"
  "validate_hierarchy G cfg tag nid pp np H n c r = (o1, n', r') \<Longrightarrow> similar cfg n m \<Longrightarrow>
     \<exists>o2 m' es. r' = r @ es
       \<and> validate_hierarchy G cfg tag nid pp np H m c2 r2 = (o2, m', r2 @ es)
       \<and> same_raise o1 o2"
  "validate_children G cfg tag pp np g cs c r = (o1, cs', r') \<Longrightarrow>
   list_all2 (similar cfg) cs ds \<Longrightarrow>
     \<exists>o2 ds' es. r' = r @ es
       \<and> validate_children G cfg tag pp np g ds c2 r2 = (o2, ds', r2 @ es)
       \<and> same_raise o1 o2"
proof (induct G cfg n r and G cfg nid n r and G cfg tag nid pp np H n c r
    and G cfg tag pp np g cs c r
    arbitrary: o1 n' r' m r2 and o1 n' r' m r2 and o1 n' r' m c2 r2 and o1 cs' r' ds c2 r2
    rule: validate_induct)
  case (consistency G cfg node report)
  note sel = similar_sel[OF consistency(3)]
  from sel have inst: "isinstance m c = isinstance node c" for c by (simp add: isinstance_def)
  from consistency(2) show ?case
  proof (cases rule: validate_consistency_cases)
    case glyph
    then show ?thesis by (simp add: validate_consistency.simps inst)
  next
    case page
    then show ?thesis by (simp add: validate_consistency.simps inst)
  next
    case element
    from consistency(1)[OF element(1,2,3) consistency(3), of r2] element(1,2) sel
    show ?thesis by (simp add: validate_consistency.simps inst)
  qed
next
  case (node G cfg node_id node report)
  note sel = similar_sel[OF node(3)]
  from sel have tag: "original_tagname m = original_tagname node"
    by (simp add: original_tagname_def)
  from validate_node_coords_two[of m node G cfg "original_tagname node" node_id report r2] sel
  consider e where "validate_node_coords G cfg (original_tagname node) node_id node report = Inl e"
      "validate_node_coords G cfg (original_tagname node) node_id m r2 = Inl e"
    | c pp np es where
      "validate_node_coords G cfg (original_tagname node) node_id node report =
         Inr (c, pp, np, report @ es)"
      "validate_node_coords G cfg (original_tagname node) node_id m r2 = Inr (c, pp, np, r2 @ es)"
    by auto
  then show ?case
  proof cases
    case 1
    with node(2) show ?thesis by (auto simp: validate_node.simps tag)
  next
    case 2
    with node(2) have run: "validate_hierarchy G cfg (original_tagname node) node_id pp np
        HIERARCHY node c (report @ es) = (o1, n', r')"
      by (simp add: validate_node.simps)
    from node(1)[OF 2(1) run node(3), of c "r2 @ es"] obtain o2 m' es' where
      "r' = (report @ es) @ es'"
      "validate_hierarchy G cfg (original_tagname node) node_id pp np HIERARCHY m c
         (r2 @ es) = (o2, m', (r2 @ es) @ es')"
      "same_raise o1 o2" by blast
    with 2(2) show ?thesis by (simp add: validate_node.simps tag)
  qed
next
  case (nil G cfg tag node_id parent_points node_poly node consistent report)
  then show ?case by auto
next
  case (entry G cfg tag node_id parent_points node_poly cl getter concatenate_with rest node
      consistent report)
  note sim = entry(5)
  note sel = similar_sel[OF sim]
  from sel have inst: "isinstance m c = isinstance node c" for c by (simp add: isinstance_def)
  note simc = similar_children[OF sim]
  from entry(4) show ?case
  proof (cases rule: validate_hierarchy_Cons_cases)
    case skip
    from entry(1)[OF skip(1,2) sim, of c2 r2] skip(1) show ?thesis
      by (simp add: validate_hierarchy.simps(2) inst)
  next
    case no_getter
    then show ?thesis by (simp add: validate_hierarchy.simps(2) inst)
  next
    case (children_raise g e children1)
    from entry(2)[OF children_raise(1,2,3) simc, of c2 r2] obtain o2 ds' es where
      "r' = report @ es"
      "validate_children G cfg tag parent_points node_poly g (children m) c2 r2 =
         (o2, ds', r2 @ es)" "same_raise (Inl e) o2" by blast
    with children_raise show ?thesis by (simp add: validate_hierarchy.simps(2) inst)
  next
    case (baseline_raise g consistent1 children1 e)
    from entry(2)[OF baseline_raise(1,2,3) simc, of c2 r2] obtain o2 ds' es where ch:
      "r' = report @ es"
      "validate_children G cfg tag parent_points node_poly g (children m) c2 r2 =
         (o2, ds', r2 @ es)" "same_raise (Inr consistent1) o2" by blast
    then obtain b2 where o2: "o2 = Inr b2" by (auto dest: same_raise_Inr)
    from validate_baseline_two[of "set_children ds' m" "set_children children1 node" G cfg
        node_id parent_points node_poly consistent1 r' b2 "r2 @ es"] sel baseline_raise(4)
    have "validate_baseline G cfg node_id parent_points node_poly (set_children ds' m) b2
        (r2 @ es) = Inl e" by auto
    with ch o2 baseline_raise show ?thesis by (simp add: validate_hierarchy.simps(2) inst)
  next
    case (continue g consistent1 children1 report1 consistent2 report2 consistent3 node3 report3)
    from entry(2)[OF continue(1,2,3) simc, of c2 r2] obtain o2 ds' es where ch:
      "report1 = report @ es"
      "validate_children G cfg tag parent_points node_poly g (children m) c2 r2 =
         (o2, ds', r2 @ es)" "same_raise (Inr consistent1) o2" by blast
    then obtain b2 where o2: "o2 = Inr b2" by (auto dest: same_raise_Inr)
    have simcs: "list_all2 (similar cfg) children1 ds'"
      using simc continue(3) ch(2) by (rule similar_after_children)
    have sim1: "similar cfg (set_children children1 node) (set_children ds' m)"
      using sim simcs by (rule similar_set_children)
    from validate_baseline_two[of "set_children ds' m" "set_children children1 node" G cfg
        node_id parent_points node_poly consistent1 report1 b2 "r2 @ es"] sel continue(4)
    obtain b3 es2 where bl: "report2 = report1 @ es2"
      "validate_baseline G cfg node_id parent_points node_poly (set_children ds' m) b2
        (r2 @ es) = Inr (b3, (r2 @ es) @ es2)" by auto
    have "strictness cfg \<noteq> ''fix'' \<Longrightarrow>
      getattr (set_children children1 node) g = getattr (set_children ds' m) g"
      using sim1 by (simp add: similar_def)
    from validate_text_two[OF sim1 this, of tag node_id concatenate_with consistent2 report2
        b3 "(r2 @ es) @ es2"] continue(5)
    obtain b4 m3 es3 where vt: "report3 = report2 @ es3"
      "validate_text cfg tag node_id concatenate_with (getattr (set_children ds' m) g)
         (set_children ds' m) b3 ((r2 @ es) @ es2) = (b4, m3, ((r2 @ es) @ es2) @ es3)"
      by auto
    have sim3: "similar cfg node3 m3" using sim1 continue(5) vt(2) by (rule similar_after_text)
    from entry(3)[OF continue(1,2,3,4,5,6) sim3, of b4 "((r2 @ es) @ es2) @ es3"]
    obtain o3 m' es4 where
      "r' = report3 @ es4"
      "validate_hierarchy G cfg tag node_id parent_points node_poly rest m3 b4
         (((r2 @ es) @ es2) @ es3) = (o3, m', (((r2 @ es) @ es2) @ es3) @ es4)"
      "same_raise o1 o3" by blast
    with ch o2 bl vt continue(1,2) show ?thesis
      by (simp add: validate_hierarchy.simps(2) inst)
  qed
next
  case (no_children G cfg tag parent_points node_poly g consistent report)
  then show ?case by auto
next
  case (child G cfg tag parent_points node_poly g child rest consistent report)
  from child(5) obtain d ds_rest where ds: "ds = d # ds_rest" and simd: "similar cfg child d"
    and simr: "list_all2 (similar cfg) rest ds_rest"
    by (auto simp: list_all2_Cons1)
  note sel = similar_sel[OF simd]
  from child(4) show ?case
  proof (cases rule: validate_children_Cons_cases)
    case (other rest')
    from child(1)[OF other(1,2) simr, of c2 r2] obtain o2 ds' es where
      "r' = report @ es"
      "validate_children G cfg tag parent_points node_poly g ds_rest c2 r2 = (o2, ds', r2 @ es)"
      "same_raise o1 o2" by blast
    with other(1) sel ds show ?thesis by (simp add: validate_children.simps(2))
  next
    case (child_raise e child1)
    from child(2)[OF child_raise(1,2) simd, of r2] obtain o2 m' es where
      "r' = report @ es" "validate_consistency G cfg d r2 = (o2, m', r2 @ es)"
      "same_raise (Inl e) o2" by blast
    with child_raise sel ds show ?thesis by (simp add: validate_children.simps(2))
  next
    case (coords_raise b child1 e)
    from child(2)[OF coords_raise(1,2) simd, of r2] obtain o2 m' es where vc:
      "r' = report @ es" "validate_consistency G cfg d r2 = (o2, m', r2 @ es)"
      "same_raise (Inr b) o2" by blast
    then obtain b2 where o2: "o2 = Inr b2" by (auto dest: same_raise_Inr)
    have "similar cfg child1 m'" using simd coords_raise(2) vc(2) by (rule similar_after_consistency)
    note sel1 = similar_sel[OF this]
    from validate_child_coords_two[of m' child1 G cfg tag parent_points node_poly
        "b \<and> consistent" r' "b2 \<and> c2" "r2 @ es"] sel1 coords_raise(3)
    have "validate_child_coords G cfg tag parent_points node_poly m' (b2 \<and> c2) (r2 @ es) = Inl e"
      by auto
    with vc o2 coords_raise sel ds show ?thesis by (simp add: validate_children.simps(2))
  next
    case (continue b child1 report1 consistent2 report2 rest')
    from child(2)[OF continue(1,2) simd, of r2] obtain o2 m' es where vc:
      "report1 = report @ es" "validate_consistency G cfg d r2 = (o2, m', r2 @ es)"
      "same_raise (Inr b) o2" by blast
    then obtain b2 where o2: "o2 = Inr b2" by (auto dest: same_raise_Inr)
    have "similar cfg child1 m'" using simd continue(2) vc(2) by (rule similar_after_consistency)
    note sel1 = similar_sel[OF this]
    from validate_child_coords_two[of m' child1 G cfg tag parent_points node_poly
        "b \<and> consistent" report1 "b2 \<and> c2" "r2 @ es"] sel1 continue(3)
    obtain b3 es2 where cc: "report2 = report1 @ es2"
      "validate_child_coords G cfg tag parent_points node_poly m' (b2 \<and> c2) (r2 @ es) =
         Inr (b3, (r2 @ es) @ es2)" by auto
    from child(3)[OF continue(1,2,3,4) simr, of b3 "(r2 @ es) @ es2"] obtain o3 ds' es3 where
      "r' = report2 @ es3"
      "validate_children G cfg tag parent_points node_poly g ds_rest b3 ((r2 @ es) @ es2) =
         (o3, ds', ((r2 @ es) @ es2) @ es3)"
      "same_raise o1 o3" by blast
    with vc o2 cc continue(1) sel ds show ?thesis by (simp add: validate_children.simps(2))
  qed
qed

section \<open>Trees that a run leaves alone\<close>

text \<open>
  Under \<open>fix\<close> the tree a run leaves is stable, and a run on a stable tree is the run
  with the text check switched off.
\<close>

lemma stable_step:
  "stable G cfg a \<Longrightarrow> validate_consistency G cfg a r = (o1, a', r') \<Longrightarrow> a' = a"
  by (auto simp: stable_def dest: spec[of _ r])

lemma list_all2_stable_refl: "list_all2 (\<lambda>a b. stable G cfg a \<longrightarrow> b = a) cs cs"
  by (simp add: list_all2_refl)

lemma list_all2_stable_trans:
  "list_all2 (\<lambda>a b. stable G cfg a \<longrightarrow> b = a) as bs \<Longrightarrow>
   list_all2 (\<lambda>a b. stable G cfg a \<longrightarrow> b = a) bs cs \<Longrightarrow>
   list_all2 (\<lambda>a b. stable G cfg a \<longrightarrow> b = a) as cs"
  by (rule list_all2_trans[of "\<lambda>a b. stable G cfg a \<longrightarrow> b = a"
        "\<lambda>a b. stable G cfg a \<longrightarrow> b = a" _ as bs cs]) auto

lemma stable_children_kept:
  "validate_children G cfg tag pp np g cs c r = (o1, cs', r') \<Longrightarrow>
   list_all2 (\<lambda>a b. stable G cfg a \<longrightarrow> b = a) cs cs'"
proof (induction cs arbitrary: c r cs')
  case Nil
  then show ?case by simp
next
  case (Cons child rest)
  from Cons.prems show ?case
  proof (cases rule: validate_children_Cons_cases)
    case (other rest')
    with Cons.IH show ?thesis by auto
  next
    case (child_raise e child1)
    then show ?thesis by (auto simp: list_all2_stable_refl dest: stable_step)
  next
    case (coords_raise b child1 e)
    then show ?thesis by (auto simp: list_all2_stable_refl dest: stable_step)
  next
    case (continue b child1 report1 consistent2 report2 rest')
    with Cons.IH show ?thesis by (auto dest: stable_step)
  qed
qed

lemma stable_children_kept_hierarchy:
  "validate_hierarchy G cfg tag nid pp np H node c r = (o1, node', r') \<Longrightarrow>
   list_all2 (\<lambda>a b. stable G cfg a \<longrightarrow> b = a) (children node) (children node')"
proof (induction H arbitrary: node c r)
  case Nil
  then show ?case by (simp add: list_all2_stable_refl)
next
  case (Cons e H)
  obtain cl getter cw where e: "e = (cl, getter, cw)" by (cases e)
  from Cons.prems[unfolded e] show ?case
  proof (cases rule: validate_hierarchy_Cons_cases)
    case skip
    then show ?thesis by (auto dest: Cons.IH)
  next
    case no_getter
    then show ?thesis by (simp add: list_all2_stable_refl)
  next
    case (children_raise g e children1)
    then show ?thesis by (auto dest: stable_children_kept)
  next
    case (baseline_raise g consistent1 children1 e)
    then show ?thesis by (auto dest: stable_children_kept)
  next
    case (continue g c1 cs1 r1 c2 r2 c3 n3 r3)
    from continue(3) have "list_all2 (\<lambda>a b. stable G cfg a \<longrightarrow> b = a) (children node) cs1"
      by (rule stable_children_kept)
    moreover from continue(5) have "children n3 = cs1" by (auto dest: validate_text_frame(3))
    moreover from continue(6)
    have "list_all2 (\<lambda>a b. stable G cfg a \<longrightarrow> b = a) (children n3) (children node')"
      by (rule Cons.IH)
    ultimately show ?thesis by (auto intro: list_all2_stable_trans)
  qed
qed

lemma validate_children_other_classes:
  "list_all2 (\<lambda>a b. class_of b = class_of a \<and> (class_of a = getter_class g \<longrightarrow> b = a)) cs ds \<Longrightarrow>
   validate_children G cfg tag pp np g cs c r = (o1, cs, r') \<Longrightarrow>
   validate_children G cfg tag pp np g ds c r = (o1, ds, r')"
proof (induction cs arbitrary: ds c r)
  case Nil
  then show ?case by simp
next
  case (Cons a as)
  from Cons.prems(1) obtain b bs where ds: "ds = b # bs" and cl: "class_of b = class_of a"
    and eq: "class_of a = getter_class g \<Longrightarrow> b = a"
    and rest: "list_all2 (\<lambda>a b. class_of b = class_of a \<and> (class_of a = getter_class g \<longrightarrow> b = a))
      as bs"
    by (auto simp: list_all2_Cons1)
  from Cons.prems(2) show ?case
  proof (cases rule: validate_children_Cons_cases)
    case (other rest')
    with Cons.IH[OF rest, of c r] cl ds show ?thesis by (simp add: validate_children.simps(2))
  next
    case (child_raise e child1)
    with eq ds show ?thesis by (simp add: validate_children.simps(2))
  next
    case (coords_raise b1 child1 e)
    with eq ds show ?thesis by (simp add: validate_children.simps(2))
  next
    case (continue b1 child1 report1 consistent2 report2 rest')
    with Cons.IH[OF rest, of consistent2 report2] eq ds show ?thesis
      by (simp add: validate_children.simps(2))
  qed
qed

lemma validate_text_idem:
  assumes "strictness cfg = ''fix''"
    and "validate_text cfg tag nid cw (getattr n g) n c r = (c', n', r')"
  shows "validate_text cfg tag nid cw (getattr n' g) n' c2 r2 = (c2, n', r2)"
proof (cases cw)
  case None
  then show ?thesis by simp
next
  case (Some sep)
  show ?thesis
  proof (cases "concatenate (getattr n g) sep (strategy cfg) \<noteq> []
      \<and> get_text n (strategy cfg) \<noteq> []
      \<and> concatenate (getattr n g) sep (strategy cfg) \<noteq> get_text n (strategy cfg)")
    case True
    then have "TextEquiv n \<noteq> []" by (auto dest: get_text_Nil)
    moreover from True assms Some
    have "n' = set_text n (concatenate (getattr n g) sep (strategy cfg)) (strategy cfg)"
      by (auto simp: validate_text_def Let_def)
    ultimately show ?thesis using Some assms(1)
      by (simp add: validate_text_def Let_def get_text_set_text)
  next
    case False
    with assms Some have "n' = n" by (auto simp: validate_text_def Let_def split: if_splits)
    with False Some assms(1) show ?thesis by (auto simp: validate_text_def Let_def)
  qed
qed

lemma validate_hierarchy_sel:
  assumes "validate_hierarchy G cfg tag nid pp np H n c r = (o1, n', r')"
  shows "class_of n' = class_of n" "ID n' = ID n" "Baseline n' = Baseline n"
    "Coords n' = Coords n" "Border n' = Border n"
  using validate_without_text(3)[OF assms] by (auto dest: without_text_eq_sel)

lemma validate_text_sel:
  assumes "validate_text cfg tag nid cw cs n c r = (c', n', r')"
  shows "class_of n' = class_of n" "ID n' = ID n" "Baseline n' = Baseline n"
    "Coords n' = Coords n" "Border n' = Border n"
  using validate_text_frame(1)[OF assms] by (auto dest: without_text_eq_sel)

lemma validate_node_sel:
  assumes "validate_node G cfg nid n r = (o1, n', r')"
  shows "class_of n' = class_of n" "ID n' = ID n" "Baseline n' = Baseline n"
    "Coords n' = Coords n" "Border n' = Border n"
  using validate_without_text(2)[OF assms] by (auto dest: without_text_eq_sel)

lemma similar_after_children_self:
  assumes "validate_children G cfg tag pp np g cs c r = (o1, cs', r')"
  shows "list_all2 (similar cfg) cs cs'"
  using validate_without_text(4)[OF assms]
  by (auto simp: similar_list dest: validate_unchanged(4)[OF _ assms])

lemma isinstance_class: "class_of m = class_of n \<Longrightarrow> isinstance m c = isinstance n c"
  by (simp add: isinstance_def)

lemma original_tagname_class:
  "class_of m = class_of n \<Longrightarrow> original_tagname m = original_tagname n"
  by (simp add: original_tagname_def)

lemma classes_of_similar:
  assumes "list_all2 (similar cfg) cs ds"
  shows "list_all2 (\<lambda>a b. class_of b = class_of a) cs ds"
  using assms by (rule list_all2_mono) (auto dest: similar_sel)

lemma other_classes:
  assumes "list_all2 (\<lambda>a b. class_of b = class_of a) cs ds"
    and "list_all2 (\<lambda>a b. stable G cfg a \<longrightarrow> b = a) cs ds"
    and "\<forall>a\<in>set cs. class_of a = getter_class g \<longrightarrow> stable G cfg a"
  shows "list_all2 (\<lambda>a b. class_of b = class_of a \<and> (class_of a = getter_class g \<longrightarrow> b = a))
    cs ds"
  using assms by (auto simp: list_all2_conv_all_nth)

lemma validate_idem:
  "strictness cfg = ''fix'' \<Longrightarrow> validate_consistency G cfg n r = (o1, n', r') \<Longrightarrow>
     stable G cfg n'"
  "strictness cfg = ''fix'' \<Longrightarrow> validate_node G cfg nid n r = (o1, n', r') \<Longrightarrow>
     fst (snd (validate_node G cfg nid n' r2)) = n'"
  "strictness cfg = ''fix'' \<Longrightarrow> text_entry_last n H \<Longrightarrow>
   validate_hierarchy G cfg tag nid pp np H n c r = (o1, n', r') \<Longrightarrow>
     fst (snd (validate_hierarchy G cfg tag nid pp np H n' c2 r2)) = n'"
  "strictness cfg = ''fix'' \<Longrightarrow>
   validate_children G cfg tag pp np g cs c r = (o1, cs', r') \<Longrightarrow>
     fst (snd (validate_children G cfg tag pp np g cs' c2 r2)) = cs'
     \<and> (\<forall>b. o1 = Inr b \<longrightarrow> (\<forall>a\<in>set cs'. class_of a = getter_class g \<longrightarrow> stable G cfg a))"
proof (induct G cfg n r and G cfg nid n r and G cfg tag nid pp np H n c r
    and G cfg tag pp np g cs c r
    arbitrary: o1 n' r' and o1 n' r' r2 and o1 n' r' c2 r2 and o1 cs' r' c2 r2
    rule: validate_induct)
  case (consistency G cfg node report)
  note fx = consistency(2)
  from consistency(3) show ?case
  proof (cases rule: validate_consistency_cases)
    case glyph
    then show ?thesis by (simp add: stable_def validate_consistency.simps)
  next
    case page
    then show ?thesis by (simp add: stable_def validate_consistency.simps)
  next
    case element
    note sel = validate_node_sel[OF element(3)]
    have "fst (snd (validate_node G cfg (ID node) n' r2)) = n'" for r2
      by (rule consistency(1)[OF element(1,2) fx element(3)])
    with element(1,2) sel show ?thesis
      by (simp add: stable_def validate_consistency.simps isinstance_class[of n' node])
  qed
next
  case (node G cfg node_id node report)
  note fx = node(2)
  from node(3) show ?case
  proof (cases rule: validate_node_cases)
    case (coords_raise e)
    with validate_node_coords_two[of node node G cfg "original_tagname node" node_id report r2]
    show ?thesis by (auto simp: validate_node.simps)
  next
    case (hierarchy c pp np r1)
    note sel = validate_hierarchy_sel[OF hierarchy(2)]
    note tag = original_tagname_class[OF sel(1)]
    from validate_node_coords_two[of n' node G cfg "original_tagname node" node_id report r2]
      sel hierarchy(1)
    obtain es where "validate_node_coords G cfg (original_tagname node) node_id n' r2 =
        Inr (c, pp, np, r2 @ es)" by auto
    moreover have "fst (snd (validate_hierarchy G cfg (original_tagname node) node_id pp np
        HIERARCHY n' c (r2 @ es))) = n'"
      using hierarchy(1) fx text_entry_last_HIERARCHY hierarchy(2) by (rule node(1))
    ultimately show ?thesis by (simp add: validate_node.simps tag)
  qed
next
  case (nil G cfg tag node_id parent_points node_poly node consistent report)
  then show ?case by simp
next
  case (entry G cfg tag node_id pp np cl getter cw rest node consistent report)
  note fx = entry(4)
  note last = entry(5)
  from entry(6) show ?case
  proof (cases rule: validate_hierarchy_Cons_cases)
    case skip
    with last have "text_entry_last node rest" by simp
    with skip have "fst (snd (validate_hierarchy G cfg tag node_id pp np rest n' c2 r2)) = n'"
      using fx by (intro entry(1))
    moreover from skip have "\<not> isinstance n' cl"
      by (simp add: isinstance_class[OF validate_hierarchy_sel(1)[OF skip(2)]])
    ultimately show ?thesis by (simp add: validate_hierarchy.simps(2))
  next
    case no_getter
    then show ?thesis by (simp add: validate_hierarchy.simps(2))
  next
    case (children_raise g e cs1)
    note ih = entry(2)[OF children_raise(1,2) fx children_raise(3)]
    from validate_similar(4)[OF children_raise(3)
        similar_after_children_self[OF children_raise(3)], of c2 r2]
    obtain ds' es where "validate_children G cfg tag pp np g cs1 c2 r2 = (Inl e, ds', r2 @ es)"
      by auto
    moreover with ih[of c2 r2] have "ds' = cs1" by simp
    ultimately show ?thesis using children_raise
      by (simp add: validate_hierarchy.simps(2))
  next
    case (baseline_raise g c1 cs1 e)
    note ih = entry(2)[OF baseline_raise(1,2) fx baseline_raise(3)]
    from validate_similar(4)[OF baseline_raise(3)
        similar_after_children_self[OF baseline_raise(3)], of c2 r2]
    obtain o2 ds' es where ch: "validate_children G cfg tag pp np g cs1 c2 r2 = (o2, ds', r2 @ es)"
      "same_raise (Inr c1) o2" by blast
    then obtain b2 where o2: "o2 = Inr b2" by (auto dest: same_raise_Inr)
    from ch ih[of c2 r2] have ds': "ds' = cs1" by simp
    from validate_baseline_two[of "set_children cs1 node" "set_children cs1 node" G cfg node_id
        pp np c1 r' b2 "r2 @ es"] baseline_raise(4)
    have "validate_baseline G cfg node_id pp np (set_children cs1 node) b2 (r2 @ es) = Inl e"
      by auto
    with ch o2 ds' baseline_raise show ?thesis by (simp add: validate_hierarchy.simps(2))
  next
    case (continue g c1 cs1 r1 cb rb c3 n3 r3)
    note ih = entry(2)[OF continue(1,2) fx continue(3)]
    from validate_similar(4)[OF continue(3) similar_after_children_self[OF continue(3)], of c2 r2]
    obtain o2 ds' es where ch: "validate_children G cfg tag pp np g cs1 c2 r2 = (o2, ds', r2 @ es)"
      "same_raise (Inr c1) o2" by blast
    then obtain b2 where o2: "o2 = Inr b2" by (auto dest: same_raise_Inr)
    from ch ih[of c2 r2] have ds': "ds' = cs1" by simp
    note ch1 = ch(1)[unfolded o2 ds']
    note tsel = validate_text_sel[OF continue(5)]
    have n3c: "children n3 = cs1" using continue(5) by (auto dest: validate_text_frame(3))
    show ?thesis
    proof (cases cw)
      case None
      with continue(5) have n3: "n3 = set_children cs1 node" by simp
      from None last continue(1) have "text_entry_last node rest" by simp
      then have last3: "text_entry_last n3 rest"
        by (simp add: n3 text_entry_last_cong[of "set_children cs1 node" node])
      have ihr: "fst (snd (validate_hierarchy G cfg tag node_id pp np rest n' b r)) = n'" for b r
        using continue(1,2,3,4,5) fx last3 continue(6) by (rule entry(3))
      note sel = validate_hierarchy_sel[OF continue(6)]
      have kept: "list_all2 (\<lambda>a b. stable G cfg a \<longrightarrow> b = a) cs1 (children n')"
        using stable_children_kept_hierarchy[OF continue(6)] n3c by simp
      have "similar cfg n3 n'"
        using validate_without_text(3)[OF continue(6)] fx by (simp add: similar_def)
      from classes_of_similar[OF similar_children[OF this]] n3c
      have classes: "list_all2 (\<lambda>a b. class_of b = class_of a) cs1 (children n')" by simp
      from ih[of c2 r2] have "\<forall>a\<in>set cs1. class_of a = getter_class g \<longrightarrow> stable G cfg a"
        by simp
      with classes kept
      have "list_all2 (\<lambda>a b. class_of b = class_of a \<and> (class_of a = getter_class g \<longrightarrow> b = a))
          cs1 (children n')" by (rule other_classes)
      from validate_children_other_classes[OF this ch1]
      have ch2: "validate_children G cfg tag pp np g (children n') c2 r2 =
          (Inr b2, children n', r2 @ es)" .
      from validate_baseline_two[of n' "set_children cs1 node" G cfg node_id
          pp np c1 r1 b2 "r2 @ es"] sel n3 continue(4)
      obtain b3 es2 where bl: "validate_baseline G cfg node_id pp np n' b2 (r2 @ es) =
          Inr (b3, (r2 @ es) @ es2)" by auto
      from continue(1) sel have "isinstance n' cl"
        by (simp add: isinstance_class[of n' n3] n3)
      with continue(2) ch2 bl None ihr show ?thesis
        by (simp add: validate_hierarchy.simps(2))
    next
      case (Some sep)
      with last continue(1) have nomatch: "\<forall>e\<in>set rest. \<not> isinstance node (fst e)" by simp
      from tsel have cl3: "class_of n3 = class_of node" by simp
      with nomatch have nomatch3: "\<forall>e\<in>set rest. \<not> isinstance n3 (fst e)"
        by (simp add: isinstance_class[of n3 node])
      then have rest3: "validate_hierarchy G cfg tag node_id pp np rest n3 b r = (Inr b, n3, r)"
        for b r by (rule validate_hierarchy_no_match)
      with continue(6) have n': "n' = n3" by simp
      from n3c have same: "set_children cs1 n3 = n3" by (metis set_children_same)
      from validate_baseline_two[of n3 "set_children cs1 node" G cfg node_id
          pp np c1 r1 b2 "r2 @ es"] tsel continue(4)
      obtain b3 es2 where bl: "validate_baseline G cfg node_id pp np n3 b2 (r2 @ es) =
          Inr (b3, (r2 @ es) @ es2)" by auto
      have vt: "validate_text cfg tag node_id cw (getattr n3 g) n3 b3 ((r2 @ es) @ es2) =
          (b3, n3, (r2 @ es) @ es2)"
        using fx continue(5) by (rule validate_text_idem)
      from continue(1) cl3 have "isinstance n3 cl" by (simp add: isinstance_class[of n3 node])
      with continue(2) ch1 n3c same bl vt rest3 n' show ?thesis
        by (simp add: validate_hierarchy.simps(2))
    qed
  qed
next
  case (no_children G cfg tag parent_points node_poly g consistent report)
  then show ?case by auto
next
  case (child G cfg tag pp np g child rest consistent report)
  note fx = child(4)
  from child(5) show ?case
  proof (cases rule: validate_children_Cons_cases)
    case (other rest')
    from child(1)[OF other(1) fx other(2), of c2 r2] other(1,3) show ?thesis
      by (auto simp: validate_children.simps(2) split: prod.splits)
  next
    case (child_raise e child1)
    have st: "stable G cfg child1" using child_raise(1) fx child_raise(2) by (rule child(2))
    from validate_similar(1)[OF child_raise(2) similar_result[OF child_raise(2)], of r2]
    obtain m' es where vc: "validate_consistency G cfg child1 r2 = (Inl e, m', r2 @ es)" by auto
    with st have "m' = child1" by (auto dest: stable_step)
    moreover have "class_of child1 = class_of child"
      using similar_sel(1)[OF similar_result[OF child_raise(2)]] by simp
    ultimately show ?thesis using vc child_raise
      by (simp add: validate_children.simps(2))
  next
    case (coords_raise b child1 e)
    have st: "stable G cfg child1" using coords_raise(1) fx coords_raise(2) by (rule child(2))
    from validate_similar(1)[OF coords_raise(2) similar_result[OF coords_raise(2)], of r2]
    obtain o2 m' es where vc: "validate_consistency G cfg child1 r2 = (o2, m', r2 @ es)"
      "same_raise (Inr b) o2" by blast
    then obtain b2 where o2: "o2 = Inr b2" by (auto dest: same_raise_Inr)
    from vc st have m': "m' = child1" by (auto dest: stable_step)
    have cl: "class_of child1 = class_of child"
      using similar_sel(1)[OF similar_result[OF coords_raise(2)]] by simp
    from validate_child_coords_two[of child1 child1 G cfg tag pp np "b \<and> consistent" r'
        "b2 \<and> c2" "r2 @ es"] coords_raise(3)
    have "validate_child_coords G cfg tag pp np child1 (b2 \<and> c2) (r2 @ es) = Inl e" by auto
    with vc o2 m' cl coords_raise show ?thesis by (simp add: validate_children.simps(2))
  next
    case (continue b child1 report1 consistent2 report2 rest')
    have st: "stable G cfg child1" using continue(1) fx continue(2) by (rule child(2))
    from validate_similar(1)[OF continue(2) similar_result[OF continue(2)], of r2]
    obtain o2 m' es where vc: "validate_consistency G cfg child1 r2 = (o2, m', r2 @ es)"
      "same_raise (Inr b) o2" by blast
    then obtain b2 where o2: "o2 = Inr b2" by (auto dest: same_raise_Inr)
    from vc st have m': "m' = child1" by (auto dest: stable_step)
    have cl: "class_of child1 = class_of child"
      using similar_sel(1)[OF similar_result[OF continue(2)]] by simp
    from validate_child_coords_two[of child1 child1 G cfg tag pp np "b \<and> consistent" report1
        "b2 \<and> c2" "r2 @ es"] continue(3)
    obtain b3 es2 where cc: "validate_child_coords G cfg tag pp np child1 (b2 \<and> c2) (r2 @ es) =
        Inr (b3, (r2 @ es) @ es2)" by auto
    note ih = child(3)[OF continue(1,2,3) fx continue(4)]
    from ih[of b3 "(r2 @ es) @ es2"] vc o2 m' cl cc continue(1,5) st ih[of c2 r2]
    show ?thesis by (auto simp: validate_children.simps(2) split: prod.splits)
  qed
qed

lemma geometry_without_text_check [simp]:
  "validate_node_coords G (without_text_check cfg) = validate_node_coords G cfg"
  "validate_child_coords G (without_text_check cfg) = validate_child_coords G cfg"
  "validate_baseline G (without_text_check cfg) = validate_baseline G cfg"
  by (simp_all add: fun_eq_iff without_text_check_def validate_node_coords_def
      validate_child_coords_def validate_baseline_def)

lemma validate_text_without_text_check [simp]:
  "validate_text (without_text_check cfg) tag nid cw kids n c r = (c, n, r)"
  by (simp add: validate_text_def without_text_check_def split: option.splits)

lemma validate_text_kept:
  assumes "strictness cfg = ''fix''"
    and "validate_text cfg tag nid cw kids n c r = (c', n, r')"
  shows "c' = c \<and> r' = r"
proof (cases cw)
  case None
  with assms show ?thesis by simp
next
  case (Some sep)
  let ?t = "concatenate kids sep (strategy cfg)"
  show ?thesis
  proof (cases "?t \<noteq> [] \<and> get_text n (strategy cfg) \<noteq> [] \<and> ?t \<noteq> get_text n (strategy cfg)")
    case True
    then have te: "TextEquiv n \<noteq> []" by (auto dest: get_text_Nil)
    from True assms Some have "n = set_text n ?t (strategy cfg)"
      by (auto simp: validate_text_def Let_def)
    then have "get_text n (strategy cfg) = get_text (set_text n ?t (strategy cfg)) (strategy cfg)"
      by simp
    also from te have "\<dots> = ?t" by (simp add: get_text_set_text)
    finally show ?thesis using True by simp
  next
    case False
    with assms Some show ?thesis by (auto simp: validate_text_def Let_def split: if_splits)
  qed
qed

lemma validate_children_other_kept:
  "validate_children G cfg tag pp np g cs c r = (o1, cs', r') \<Longrightarrow>
   list_all2 (\<lambda>a b. class_of a \<noteq> getter_class g \<longrightarrow> b = a) cs cs'"
proof (induction cs arbitrary: c r cs')
  case Nil
  then show ?case by simp
next
  case (Cons child rest)
  from Cons.prems show ?case
  proof (cases rule: validate_children_Cons_cases)
    case (other rest')
    with Cons.IH show ?thesis by auto
  next
    case (child_raise e child1)
    then show ?thesis by (simp add: list_all2_refl)
  next
    case (coords_raise b child1 e)
    then show ?thesis by (simp add: list_all2_refl)
  next
    case (continue b child1 report1 consistent2 report2 rest')
    with Cons.IH show ?thesis by auto
  qed
qed

lemma children_restored:
  assumes "list_all2 (\<lambda>a b. class_of b = class_of a) cs cs1"
    and "list_all2 (\<lambda>a b. class_of a \<noteq> getter_class g \<longrightarrow> b = a) cs cs1"
    and "\<forall>a\<in>set cs1. class_of a = getter_class g \<longrightarrow> stable G cfg a"
    and "list_all2 (\<lambda>a b. stable G cfg a \<longrightarrow> b = a) cs1 cs"
  shows "cs1 = cs"
proof (rule nth_equalityI)
  from assms(1) show len: "length cs1 = length cs" by (simp add: list_all2_lengthD)
  fix i assume i: "i < length cs1"
  show "cs1 ! i = cs ! i"
  proof (cases "class_of (cs ! i) = getter_class g")
    case True
    with assms(1) i len have "class_of (cs1 ! i) = getter_class g"
      by (auto simp: list_all2_conv_all_nth)
    with assms(3) i have "stable G cfg (cs1 ! i)" by auto
    with assms(4) i show ?thesis by (auto simp: list_all2_conv_all_nth)
  next
    case False
    with assms(2) i len show ?thesis by (auto simp: list_all2_conv_all_nth)
  qed
qed

lemma validate_without_text_check:
  "strictness cfg = ''fix'' \<Longrightarrow> validate_consistency G cfg n r = (o1, n', r') \<Longrightarrow> n' = n \<Longrightarrow>
     validate_consistency G (without_text_check cfg) n r = (o1, n', r')"
  "strictness cfg = ''fix'' \<Longrightarrow> validate_node G cfg nid n r = (o1, n', r') \<Longrightarrow> n' = n \<Longrightarrow>
     validate_node G (without_text_check cfg) nid n r = (o1, n', r')"
  "strictness cfg = ''fix'' \<Longrightarrow> text_entry_last n H \<Longrightarrow>
   validate_hierarchy G cfg tag nid pp np H n c r = (o1, n', r') \<Longrightarrow> n' = n \<Longrightarrow>
     validate_hierarchy G (without_text_check cfg) tag nid pp np H n c r = (o1, n', r')"
  "strictness cfg = ''fix'' \<Longrightarrow>
   validate_children G cfg tag pp np g cs c r = (o1, cs', r') \<Longrightarrow> cs' = cs \<Longrightarrow>
     validate_children G (without_text_check cfg) tag pp np g cs c r = (o1, cs', r')"
proof (induct G cfg n r and G cfg nid n r and G cfg tag nid pp np H n c r
    and G cfg tag pp np g cs c r
    arbitrary: o1 n' r' and o1 n' r' and o1 n' r' and o1 cs' r'
    rule: validate_induct)
  case (consistency G cfg node report)
  note fx = consistency(2)
  from consistency(3) show ?case
  proof (cases rule: validate_consistency_cases)
    case glyph
    then show ?thesis by (simp add: validate_consistency.simps)
  next
    case page
    then show ?thesis by (simp add: validate_consistency.simps)
  next
    case element
    from consistency(1)[OF element(1,2) fx element(3) consistency(4)] element(1,2)
    show ?thesis by (simp add: validate_consistency.simps)
  qed
next
  case (node G cfg node_id node report)
  note fx = node(2)
  from node(3) show ?case
  proof (cases rule: validate_node_cases)
    case (coords_raise e)
    then show ?thesis by (simp add: validate_node.simps)
  next
    case (hierarchy c pp np r1)
    from node(1)[OF hierarchy(1) fx text_entry_last_HIERARCHY hierarchy(2) node(4)] hierarchy(1)
    show ?thesis by (simp add: validate_node.simps)
  qed
next
  case (nil G cfg tag node_id parent_points node_poly node consistent report)
  then show ?case by simp
next
  case (entry G cfg tag node_id pp np cl getter cw rest node consistent report)
  note fx = entry(4)
  note last = entry(5)
  note same = entry(7)
  from entry(6) show ?case
  proof (cases rule: validate_hierarchy_Cons_cases)
    case skip
    with last have "text_entry_last node rest" by simp
    from entry(1)[OF skip(1) fx this skip(2) same] skip(1)
    show ?thesis by (simp add: validate_hierarchy.simps(2))
  next
    case no_getter
    then show ?thesis by (simp add: validate_hierarchy.simps(2))
  next
    case (children_raise g e cs1)
    with same have "children (set_children cs1 node) = children node" by simp
    then have cs1: "cs1 = children node" by simp
    from entry(2)[OF children_raise(1,2) fx children_raise(3) cs1] children_raise
    show ?thesis by (simp add: validate_hierarchy.simps(2))
  next
    case (baseline_raise g c1 cs1 e)
    with same have "children (set_children cs1 node) = children node" by simp
    then have cs1: "cs1 = children node" by simp
    from entry(2)[OF baseline_raise(1,2) fx baseline_raise(3) cs1] baseline_raise
    show ?thesis by (simp add: validate_hierarchy.simps(2))
  next
    case (continue g c1 cs1 r1 cb rb c3 n3 r3)
    have n3c: "children n3 = cs1" using continue(5) by (auto dest: validate_text_frame(3))
    note tsel = validate_text_sel[OF continue(5)]
    show ?thesis
    proof (cases cw)
      case None
      with continue(5) have n3: "n3 = set_children cs1 node" "c3 = cb" "r3 = rb" by simp_all
      from classes_of_similar[OF similar_after_children_self[OF continue(3)]]
      have classes: "list_all2 (\<lambda>a b. class_of b = class_of a) (children node) cs1" .
      note other = validate_children_other_kept[OF continue(3)]
      from validate_idem(4)[OF fx continue(3)]
      have st: "\<forall>a\<in>set cs1. class_of a = getter_class g \<longrightarrow> stable G cfg a" by simp
      from stable_children_kept_hierarchy[OF continue(6)] n3c same
      have kept: "list_all2 (\<lambda>a b. stable G cfg a \<longrightarrow> b = a) cs1 (children node)" by simp
      from classes other st kept have cs1: "cs1 = children node" by (rule children_restored)
      with n3 have n3': "n3 = node" by simp
      from None last continue(1) have last3: "text_entry_last n3 rest" by (simp add: n3')
      from same n3' have same3: "n' = n3" by simp
      note ihr = entry(3)[OF continue(1,2,3,4,5) fx last3 continue(6) same3]
      note ihc = entry(2)[OF continue(1,2) fx continue(3) cs1]
      from ihr ihc continue(1,2,4) None n3 cs1 show ?thesis
        by (simp add: validate_hierarchy.simps(2))
    next
      case (Some sep)
      with last continue(1) have nomatch: "\<forall>e\<in>set rest. \<not> isinstance node (fst e)" by simp
      from tsel have cl3: "class_of n3 = class_of node" by simp
      with nomatch have nomatch3: "\<forall>e\<in>set rest. \<not> isinstance n3 (fst e)"
        by (simp add: isinstance_class[of n3 node])
      then have rest3: "validate_hierarchy G cfg tag node_id pp np rest n3 c3 r3 = (Inr c3, n3, r3)"
        by (rule validate_hierarchy_no_match)
      with continue(6) have res: "n' = n3" "o1 = Inr c3" "r' = r3" by simp_all
      with same have n3': "n3 = node" by simp
      with n3c have cs1: "cs1 = children node" by simp
      from continue(5) have "validate_text cfg tag node_id cw (getattr node g) node cb rb =
          (c3, node, r3)" by (simp add: cs1 n3')
      with fx have kept: "c3 = cb \<and> r3 = rb" by (rule validate_text_kept)
      have rest_off: "validate_hierarchy G (without_text_check cfg) tag node_id pp np rest node
          cb rb = (Inr cb, node, rb)"
        using nomatch by (rule validate_hierarchy_no_match)
      note ihc = entry(2)[OF continue(1,2) fx continue(3) cs1]
      from ihc continue(1,2,4) cs1 rest_off res kept n3' show ?thesis
        by (simp add: validate_hierarchy.simps(2))
    qed
  qed
next
  case (no_children G cfg tag parent_points node_poly g consistent report)
  then show ?case by auto
next
  case (child G cfg tag pp np g child rest consistent report)
  note fx = child(4)
  note same = child(6)
  from child(5) show ?case
  proof (cases rule: validate_children_Cons_cases)
    case (other rest')
    with same have r: "rest' = rest" by simp
    from child(1)[OF other(1) fx other(2) r] other(1,3) show ?thesis
      by (simp add: validate_children.simps(2))
  next
    case (child_raise e child1)
    with same have c1: "child1 = child" by simp
    from child(2)[OF child_raise(1) fx child_raise(2) c1] child_raise show ?thesis
      by (simp add: validate_children.simps(2))
  next
    case (coords_raise b child1 e)
    with same have c1: "child1 = child" by simp
    from child(2)[OF coords_raise(1) fx coords_raise(2) c1] coords_raise show ?thesis
      by (simp add: validate_children.simps(2))
  next
    case (continue b child1 report1 consistent2 report2 rest')
    with same have c1: "child1 = child" and r: "rest' = rest" by simp_all
    from child(2)[OF continue(1) fx continue(2) c1]
      child(3)[OF continue(1,2,3) fx continue(4) r] continue show ?thesis
      by (simp add: validate_children.simps(2))
  qed
qed

section \<open>Accessors that the table lists more than once\<close>

text \<open>
  Every entry of the table that returns a child appends the errors of a run on that
  child once more.
\<close>

lemma validate_appends:
  "validate_consistency G cfg n r = (o1, n', r') \<Longrightarrow> \<exists>es. r' = r @ es"
  "validate_node G cfg nid n r = (o1, n', r') \<Longrightarrow> \<exists>es. r' = r @ es"
  "validate_hierarchy G cfg tag nid pp np H n c r = (o1, n', r') \<Longrightarrow> \<exists>es. r' = r @ es"
  "validate_children G cfg tag pp np g cs c r = (o1, cs', r') \<Longrightarrow> \<exists>es. r' = r @ es"
  using validate_similar(1)[of G cfg n r o1 n' r' n r]
    validate_similar(2)[of G cfg nid n r o1 n' r' n r]
    validate_similar(3)[of G cfg tag nid pp np H n c r o1 n' r' n c r]
    validate_similar(4)[of G cfg tag pp np g cs c r o1 cs' r' cs c r]
  by (auto simp: list_all2_refl)

lemma validate_node_coords_appends:
  "validate_node_coords G cfg tag nid n r = Inr (c, pp, np, r') \<Longrightarrow> \<exists>es. r' = r @ es"
  using validate_node_coords_two[of n n G cfg tag nid r r] by auto

lemma validate_child_coords_appends:
  "validate_child_coords G cfg tag pp np a c r = Inr (c', r') \<Longrightarrow> \<exists>es. r' = r @ es"
  using validate_child_coords_two[of a a G cfg tag pp np c r c r] by auto

lemma validate_baseline_appends:
  "validate_baseline G cfg nid pp np n c r = Inr (c', r') \<Longrightarrow> \<exists>es. r' = r @ es"
  using validate_baseline_two[of n n G cfg nid pp np c r c r] by auto

lemma validate_text_appends:
  "validate_text cfg tag nid cw cs n c r = (c', n', r') \<Longrightarrow> \<exists>es. r' = r @ es"
  using validate_text_two[of cfg n n cs cs tag nid cw c r c r] by auto

lemma visit_appends_child_errors:
  assumes "validate_children G cfg tag pp np g cs c r = (Inr c', cs', r')"
    and "y \<in> set cs" "class_of y = getter_class g" "similar cfg y x"
    and "validate_consistency G cfg x [] = (ox, x', ces)"
  shows "(\<exists>b. ox = Inr b) \<and> (\<exists>es. r' = r @ es \<and> (\<forall>e. count_list ces e \<le> count_list es e))"
  using assms(1,2)
proof (induction cs arbitrary: c r cs')
  case Nil
  then show ?case by simp
next
  case (Cons child rest)
  from Cons.prems(1) show ?case
  proof (cases rule: validate_children_Cons_cases)
    case (other rest')
    with Cons.prems(2) assms(3) have "y \<in> set rest" by auto
    from Cons.IH[OF other(2) this] show ?thesis .
  next
    case (child_raise e child1)
    then show ?thesis by simp
  next
    case (coords_raise b child1 e)
    then show ?thesis by simp
  next
    case (continue b child1 report1 consistent2 report2 rest')
    from validate_appends(1)[OF continue(2)] obtain es1 where es1: "report1 = r @ es1" by blast
    from validate_child_coords_appends[OF continue(3)]
    obtain es2 where es2: "report2 = report1 @ es2" by blast
    from validate_appends(4)[OF continue(4)] obtain es3 where es3: "r' = report2 @ es3" by blast
    show ?thesis
    proof (cases "y = child")
      case True
      with assms(4) have "similar cfg child x" by simp
      from validate_similar(1)[OF continue(2) this, of "[]"] assms(5) es1
      have "ces = es1" "\<exists>b. ox = Inr b" by (auto dest: same_raise_Inr)
      with es1 es2 es3 show ?thesis by auto
    next
      case False
      with Cons.prems(2) have "y \<in> set rest" by simp
      from Cons.IH[OF continue(4) this]
      obtain es where ox: "\<exists>b. ox = Inr b" and es: "r' = report2 @ es"
        "\<forall>e. count_list ces e \<le> count_list es e" by blast
      have "count_list ces e \<le> count_list (es1 @ es2 @ es) e" for e
        using es(2)[rule_format, of e] by simp
      with ox es(1) es1 es2 show ?thesis by auto
    qed
  qed
qed

lemma visits_Cons:
  "visits node c ((cl, getter, cw) # H) =
     (if isinstance node cl \<and> map_option getter_class getter = Some c then Suc (visits node c H)
      else visits node c H)"
  by (simp add: visits_def)

lemma visits_class: "class_of m = class_of n \<Longrightarrow> visits m c H = visits n c H"
  by (simp add: visits_def isinstance_def)

lemma hierarchy_appends_child_errors:
  assumes "validate_hierarchy G cfg tag nid pp np H node c r = (Inr c', node', r')"
    and "y \<in> set (children node)" "similar cfg y x"
    and "validate_consistency G cfg x [] = (ox, x', ces)"
  shows "(0 < visits node (class_of x) H \<longrightarrow> (\<exists>b. ox = Inr b))
     \<and> (\<exists>es. r' = r @ es
          \<and> (\<forall>e. visits node (class_of x) H * count_list ces e \<le> count_list es e))"
  using assms(1,2,3)
proof (induction H arbitrary: node c r y)
  case Nil
  then show ?case by (simp add: visits_def)
next
  case (Cons entry H)
  obtain cl getter cw where entry: "entry = (cl, getter, cw)" by (cases entry)
  from Cons.prems(1)[unfolded entry] show ?case
  proof (cases rule: validate_hierarchy_Cons_cases)
    case skip
    from Cons.IH[OF skip(2) Cons.prems(2,3)] skip(1) show ?thesis
      by (simp add: entry visits_Cons)
  next
    case no_getter
    then show ?thesis by simp
  next
    case (children_raise g e children1)
    then show ?thesis by simp
  next
    case (baseline_raise g consistent1 children1 e)
    then show ?thesis by simp
  next
    case (continue g c1 cs1 r1 cb rb c3 n3 r3)
    from validate_appends(4)[OF continue(3)] obtain esA where esA: "r1 = r @ esA" by blast
    from validate_baseline_appends[OF continue(4)] obtain esB where esB: "rb = r1 @ esB" by blast
    from validate_text_appends[OF continue(5)] obtain esC where esC: "r3 = rb @ esC" by blast
    have n3c: "children n3 = cs1" using continue(5) by (auto dest: validate_text_frame(3))
    have cl3: "class_of n3 = class_of node" using validate_text_sel(1)[OF continue(5)] by simp
    from similar_after_children_self[OF continue(3)] Cons.prems(2)
    have "\<exists>y3. y3 \<in> set cs1 \<and> similar cfg y y3"
      by (auto simp: list_all2_conv_all_nth in_set_conv_nth)
    then obtain y3 where y3: "y3 \<in> set cs1" "similar cfg y y3" by blast
    from y3(2) Cons.prems(3) have sim3: "similar cfg y3 x"
      by (blast intro: similar_sym similar_trans)
    from y3(1) n3c have "y3 \<in> set (children n3)" by simp
    from Cons.IH[OF continue(6) this sim3]
    obtain esD where ih: "0 < visits node (class_of x) H \<longrightarrow> (\<exists>b. ox = Inr b)"
      "r' = r3 @ esD" "\<forall>e. visits node (class_of x) H * count_list ces e \<le> count_list esD e"
      by (auto simp: visits_class[OF cl3])
    show ?thesis
    proof (cases "getter_class g = class_of x")
      case True
      with similar_sel(1)[OF Cons.prems(3)] have "class_of y = getter_class g" by simp
      from visit_appends_child_errors[OF continue(3) Cons.prems(2) this Cons.prems(3) assms(4)]
        esA
      have ox: "\<exists>b. ox = Inr b" and first: "\<forall>e. count_list ces e \<le> count_list esA e" by auto
      have "Suc (visits node (class_of x) H) * count_list ces e
          \<le> count_list (esA @ esB @ esC @ esD) e" for e
        using first[rule_format, of e] ih(3)[rule_format, of e] by simp
      with ox ih(2) esA esB esC continue(1,2) True show ?thesis
        by (simp add: entry visits_Cons)
    next
      case False
      have "visits node (class_of x) H * count_list ces e
          \<le> count_list (esA @ esB @ esC @ esD) e" for e
        using ih(3)[rule_format, of e] by simp
      with ih(1,2) esA esB esC continue(1,2) False show ?thesis
        by (simp add: entry visits_Cons)
    qed
  qed
qed

lemma visits_GraphicRegion:
  assumes "isinstance parent PageType \<or> isinstance parent RegionType"
  shows "visits parent GraphicRegionType HIERARCHY = 2"
proof -
  have "\<not> (isinstance parent PageType \<and> isinstance parent RegionType)"
    by (auto simp: isinstance_def region_class_def)
  with assms show ?thesis
    by (auto simp: visits_def HIERARCHY_def)
qed

section \<open>The claims\<close>

lemmas demo_defs =
  demo_page_def demo_region_def demo_line_def element_def demo_config_def demo_shapely_def
  demo_bounds_def

lemmas eval_defs =
  validate_consistency_PcGts_def validate_simps HIERARCHY_def isinstance_def region_class_def
  validate_node_coords_def validate_child_coords_def validate_baseline_def validate_text_def
  original_tagname_def getattr_def set_children_def concatenate_def get_text_def set_text_def
  set_TextEquiv_def set_Unicode_def strip_def isspace_def add_error_def truth_def
  invalid_coords_def compare_without_whitespace_def Let_def

text \<open>
  C9. A run never creates or removes an element and never changes a class, an id or a
  geometry field: the tree after the run and the tree before it are the same once the
  canonical texts are blanked. Unless the strictness is \<open>fix\<close> the tree after the run is
  the tree before it. This holds for a run on any element and for a run on the root,
  whatever the options, the geometry and the outcome (also when the run raises).
\<close>

theorem validation_overwrites_canonical_text_only:
  "without_text (fst (snd (validate_consistency G cfg node report))) = without_text node
   \<and> (strictness cfg \<noteq> ''fix'' \<longrightarrow> fst (snd (validate_consistency G cfg node report)) = node)
   \<and> pcGtsId (fst (snd (validate_consistency_PcGts G cfg pcgts report))) = pcGtsId pcgts
   \<and> without_text (Page (fst (snd (validate_consistency_PcGts G cfg pcgts report)))) =
       without_text (Page pcgts)
   \<and> (strictness cfg \<noteq> ''fix'' \<longrightarrow>
        fst (snd (validate_consistency_PcGts G cfg pcgts report)) = pcgts)"
proof -
  obtain r node' report' where vc: "validate_consistency G cfg node report = (r, node', report')"
    by (cases "validate_consistency G cfg node report") auto
  obtain r2 page' report2 where vn: "validate_node G cfg (pcGtsId pcgts) (Page pcgts) report =
      (r2, page', report2)"
    by (cases "validate_node G cfg (pcGtsId pcgts) (Page pcgts) report") auto
  from vc have "without_text node' = without_text node" by (rule validate_without_text(1))
  moreover have "strictness cfg \<noteq> ''fix'' \<longrightarrow> node' = node"
    using vc by (auto dest: validate_unchanged(1))
  moreover from vn have "without_text page' = without_text (Page pcgts)"
    by (rule validate_without_text(2))
  moreover have "strictness cfg \<noteq> ''fix'' \<longrightarrow> page' = Page pcgts"
    using vn by (auto dest: validate_unchanged(2))
  ultimately show ?thesis
    using vc vn by (cases pcgts) (auto simp: validate_consistency_PcGts_def)
qed

theorem validation_overwrites_canonical_text_only_witness:
  "strictness (demo_config ''strict'' True) \<noteq> ''fix''
   \<and> fst (snd (validate_consistency_PcGts demo_shapely (demo_config ''strict'' True)
        (demo_page [demo_region ''fo o'']) [])) = demo_page [demo_region ''fo o'']
   \<and> without_text (Page (fst (snd (validate_consistency_PcGts demo_shapely
        (demo_config ''fix'' True) (demo_page [demo_region ''fo o'']) [])))) =
       without_text (Page (demo_page [demo_region ''fo o'']))"
  using validation_overwrites_canonical_text_only
          [of demo_shapely "demo_config ''strict'' True" "demo_region ''fo o''" "[]"
              "demo_page [demo_region ''fo o'']"]
        validation_overwrites_canonical_text_only
          [of demo_shapely "demo_config ''fix'' True" "demo_region ''fo o''" "[]"
              "demo_page [demo_region ''fo o'']"]
  by (simp add: demo_config_def)

text \<open>
  C8, as amended. Under \<open>lax\<close>, when the canonical text of a node and the joined texts
  of its children are both non-empty and differ by white space only, no text error with
  these two texts is appended, but the call still returns \<open>False\<close>: the node counts as
  inconsistent.
\<close>

theorem lax_whitespace_difference:
  assumes lax: "strictness cfg = ''lax''"
    and entry: "(c, Some g, Some sep) \<in> set HIERARCHY" "isinstance node c"
    and nonempty: "concatenate (getattr node g) sep (strategy cfg) \<noteq> []"
      "get_text node (strategy cfg) \<noteq> []"
    and differ: "concatenate (getattr node g) sep (strategy cfg) \<noteq> get_text node (strategy cfg)"
    and same: "compare_without_whitespace (concatenate (getattr node g) sep (strategy cfg))
      (get_text node (strategy cfg))"
    and run: "validate_consistency G cfg node report = (Inr consistent, node', report')"
  shows "\<not> consistent \<and>
    (\<exists>es. report' = report @ es \<and>
      (\<forall>tag i. ConsistencyError tag i (get_text node (strategy cfg))
          (concatenate (getattr node g) sep (strategy cfg)) \<notin> set es))"
proof
  from lax have nf: "strictness cfg \<noteq> ''fix''" by simp
  from text_entry_at_node[OF nf entry run] obtain c1 r1 c2 r2 where
    vt: "validate_text cfg (original_tagname node) (ID node) (Some sep) (getattr node g) node
      c1 r1 = (c2, node, r2)" and c2: "consistent \<longrightarrow> c2" by blast
  from vt lax nonempty differ have "\<not> c2"
    by (auto simp: validate_text_def Let_def split: if_splits)
  with c2 show "\<not> consistent" by blast
  from run have "extends G cfg report report'" by (rule validate_sound(1))
  then obtain es where es: "report' = report @ es" "\<forall>e\<in>set es. sound_error G cfg e"
    by (blast dest: extends_appended)
  have "ConsistencyError tag i (get_text node (strategy cfg))
      (concatenate (getattr node g) sep (strategy cfg)) \<notin> set es" for tag i
  proof
    assume "ConsistencyError tag i (get_text node (strategy cfg))
      (concatenate (getattr node g) sep (strategy cfg)) \<in> set es"
    with es(2) have "sound_error G cfg (ConsistencyError tag i (get_text node (strategy cfg))
      (concatenate (getattr node g) sep (strategy cfg)))" by blast
    with lax same show False by (simp add: sound_error_def)
  qed
  with es(1) show "\<exists>es. report' = report @ es \<and>
      (\<forall>tag i. ConsistencyError tag i (get_text node (strategy cfg))
          (concatenate (getattr node g) sep (strategy cfg)) \<notin> set es)" by blast
qed

lemma eval_lax: "validate_consistency demo_shapely (demo_config ''lax'' True)
     (demo_two_lines ''foo  bar'') [] = (Inr False, demo_two_lines ''foo  bar'', [])"
  by (simp add: demo_two_lines_def demo_defs eval_defs)

theorem lax_whitespace_difference_witness:
  "strictness (demo_config ''lax'' True) = ''lax''
   \<and> (TextRegionType, Some get_TextLine, Some ''\<newline>'') \<in> set HIERARCHY
   \<and> isinstance (demo_two_lines ''foo  bar'') TextRegionType
   \<and> concatenate (getattr (demo_two_lines ''foo  bar'') get_TextLine) ''\<newline>'' ''index1'' =
       ''foo\<newline>bar''
   \<and> get_text (demo_two_lines ''foo  bar'') ''index1'' = ''foo  bar''
   \<and> compare_without_whitespace ''foo\<newline>bar'' ''foo  bar''
   \<and> validate_consistency demo_shapely (demo_config ''lax'' True)
        (demo_two_lines ''foo  bar'') [] = (Inr False, demo_two_lines ''foo  bar'', [])"
proof -
  have h1: "strictness (demo_config ''lax'' True) = ''lax''" by (simp add: demo_config_def)
  have h2: "(TextRegionType, Some get_TextLine, Some ''\<newline>'') \<in> set HIERARCHY"
    by (simp add: HIERARCHY_def)
  have h3: "isinstance (demo_two_lines ''foo  bar'') TextRegionType"
    by (simp add: demo_two_lines_def element_def isinstance_def)
  have s: "strategy (demo_config ''lax'' True) = ''index1''" by (simp add: demo_config_def)
  have h4: "concatenate (getattr (demo_two_lines ''foo  bar'') get_TextLine) ''\<newline>'' ''index1'' =
       ''foo\<newline>bar''"
    by (simp add: demo_two_lines_def element_def getattr_def concatenate_def get_text_def
        strip_def isspace_def)
  have h5: "get_text (demo_two_lines ''foo  bar'') ''index1'' = ''foo  bar''"
    by (simp add: demo_two_lines_def element_def get_text_def strip_def isspace_def)
  have h6: "compare_without_whitespace ''foo\<newline>bar'' ''foo  bar''"
    by (simp add: compare_without_whitespace_def isspace_def)
  note w = lax_whitespace_difference[of "demo_config ''lax'' True" TextRegionType get_TextLine
      "''\<newline>''" "demo_two_lines ''foo  bar''" demo_shapely "[]" False
      "demo_two_lines ''foo  bar''" "[]", unfolded s, OF h1 h2 h3 _ _ _ _ eval_lax]
  from w h1 h2 h3 h4 h5 h6 eval_lax show ?thesis by simp
qed

text \<open>
  C8, as stated, fails: the region \<open>foo  bar\<close> over the lines \<open>foo\<close> and \<open>bar\<close> gets no
  error under \<open>lax\<close>, and the call returns \<open>False\<close>, not \<open>True\<close>.
\<close>

theorem lax_returns_false_counterexample:
  "fst (validate_consistency demo_shapely (demo_config ''lax'' True)
     (demo_two_lines ''foo  bar'') []) = Inr False
   \<and> snd (snd (validate_consistency demo_shapely (demo_config ''lax'' True)
     (demo_two_lines ''foo  bar'') [])) = []"
  by (simp add: demo_two_lines_def demo_defs eval_defs)

text \<open>
  C1, as amended. For a text region whose lines have the canonical texts \<open>foo\<close> and
  \<open>bar\<close>, the lines join to \<open>foo\<close>, a newline, \<open>bar\<close>. If that is the region's text,
  \<open>strict\<close> appends no text error for it; if the region's text is \<open>foo bar\<close> or
  \<open>foo  bar\<close>, \<open>lax\<close> appends no text error for it and \<open>strict\<close> appends one.
\<close>

theorem text_region_of_foo_and_bar:
  assumes region: "class_of region = TextRegionType"
    and lines: "map (\<lambda>line. get_text line (strategy cfg)) (getattr region get_TextLine) =
      [''foo'', ''bar'']"
    and run: "validate_consistency G cfg region report = (Inr consistent, region', report @ es)"
  shows "(strictness cfg = ''strict'' \<and> get_text region (strategy cfg) = ''foo\<newline>bar'' \<longrightarrow>
            (\<forall>tag i. ConsistencyError tag i ''foo\<newline>bar'' ''foo\<newline>bar'' \<notin> set es))
       \<and> (strictness cfg = ''lax'' \<and> get_text region (strategy cfg) \<in> {''foo bar'', ''foo  bar''} \<longrightarrow>
            (\<forall>tag i. ConsistencyError tag i (get_text region (strategy cfg)) ''foo\<newline>bar''
                \<notin> set es))
       \<and> (strictness cfg = ''strict'' \<and> get_text region (strategy cfg) \<in> {''foo bar'', ''foo  bar''} \<longrightarrow>
            ConsistencyError ''TextRegion'' (ID region) (get_text region (strategy cfg))
              ''foo\<newline>bar'' \<in> set es)"
proof -
  note conc = concatenate_foo_bar[OF lines]
  have entry: "(TextRegionType, Some get_TextLine, Some ''\<newline>'') \<in> set HIERARCHY"
    by (simp add: HIERARCHY_def)
  from region have inst: "isinstance region TextRegionType" by (simp add: isinstance_def)
  from region have tag: "original_tagname region = ''TextRegion''"
    by (simp add: original_tagname_def)
  have a: "ConsistencyError tag i ''foo\<newline>bar'' ''foo\<newline>bar'' \<notin> set es" for tag i
    using run by (rule text_error_differs)
  have b: "ConsistencyError tag i (get_text region (strategy cfg)) ''foo\<newline>bar'' \<notin> set es"
    if "strictness cfg = ''lax''" "get_text region (strategy cfg) \<in> {''foo bar'', ''foo  bar''}"
    for tag i
  proof -
    from that(2) have "compare_without_whitespace ''foo\<newline>bar'' (get_text region (strategy cfg))"
      by (auto simp: compare_without_whitespace_def isspace_def)
    with that(1) run show ?thesis by (rule text_error_lax)
  qed
  have c: "ConsistencyError ''TextRegion'' (ID region) (get_text region (strategy cfg))
      ''foo\<newline>bar'' \<in> set es"
    if "strictness cfg = ''strict''" "get_text region (strategy cfg) \<in> {''foo bar'', ''foo  bar''}"
  proof -
    from that(2) have "get_text region (strategy cfg) \<noteq> []"
      "''foo\<newline>bar'' \<noteq> get_text region (strategy cfg)" by auto
    with text_error_appended[OF that(1) entry inst _ _ _ run, unfolded conc tag]
    show ?thesis by simp
  qed
  from a b c show ?thesis by blast
qed

theorem text_region_of_foo_and_bar_witness:
  "class_of (demo_two_lines ''foo  bar'') = TextRegionType
   \<and> map (\<lambda>line. get_text line ''index1'') (getattr (demo_two_lines ''foo  bar'') get_TextLine) =
       [''foo'', ''bar'']
   \<and> validate_consistency demo_shapely (demo_config ''strict'' True)
        (demo_two_lines ''foo  bar'') [] =
       (Inr False, demo_two_lines ''foo  bar'',
        [] @ [ConsistencyError ''TextRegion'' ''r1'' ''foo  bar'' ''foo\<newline>bar''])
   \<and> ConsistencyError ''TextRegion'' (ID (demo_two_lines ''foo  bar'')) ''foo  bar''
        ''foo\<newline>bar'' \<in> set [ConsistencyError ''TextRegion'' ''r1'' ''foo  bar'' ''foo\<newline>bar'']"
proof -
  have s: "strategy (demo_config ''strict'' True) = ''index1''"
    "strictness (demo_config ''strict'' True) = ''strict''" by (simp_all add: demo_config_def)
  have h1: "class_of (demo_two_lines ''foo  bar'') = TextRegionType"
    by (simp add: demo_two_lines_def element_def)
  have h2: "map (\<lambda>line. get_text line ''index1'')
      (getattr (demo_two_lines ''foo  bar'') get_TextLine) = [''foo'', ''bar'']"
    by (simp add: demo_two_lines_def element_def getattr_def get_text_def strip_def isspace_def)
  have h3: "validate_consistency demo_shapely (demo_config ''strict'' True)
      (demo_two_lines ''foo  bar'') [] =
      (Inr False, demo_two_lines ''foo  bar'',
       [] @ [ConsistencyError ''TextRegion'' ''r1'' ''foo  bar'' ''foo\<newline>bar''])"
    by (simp add: demo_two_lines_def demo_defs eval_defs)
  have h4: "get_text (demo_two_lines ''foo  bar'') ''index1'' = ''foo  bar''"
    by (simp add: demo_two_lines_def element_def get_text_def strip_def isspace_def)
  from text_region_of_foo_and_bar[of "demo_two_lines ''foo  bar''" "demo_config ''strict'' True",
      unfolded s, OF h1 h2 h3] h1 h2 h3 h4
  show ?thesis by simp
qed

text \<open>
  C1, as stated, fails in its first part: the lines are joined by a newline, so the
  region \<open>foo bar\<close> over the lines \<open>foo\<close> and \<open>bar\<close> is reported under \<open>strict\<close>.
\<close>

theorem strict_reports_space_joined_region_counterexample:
  "validate demo_shapely no_loader no_parser None (Some (demo_page [demo_two_lines ''foo bar'']))
     None ''strict'' ''index1'' True True =
   (Inr [ConsistencyError ''TextRegion'' ''r1'' ''foo bar'' ''foo\<newline>bar''],
    Some (demo_page [demo_two_lines ''foo bar'']))"
  by (simp add: validate_def demo_two_lines_def demo_defs eval_defs)

text \<open>
  C3. The code accepts every strategy that occurs in \<open>index1\<close> as a substring, for
  instance \<open>index\<close>: the page is traversed and the report returned.
\<close>

theorem strategy_index_is_accepted:
  "validate demo_shapely no_loader no_parser None (Some (demo_page [demo_region ''fo o''])) None
     ''strict'' ''index'' True True =
   (Inr [ConsistencyError ''TextLine'' ''l1'' ''fo o'' ''foo o''],
    Some (demo_page [demo_region ''fo o'']))"
  by (simp add: validate_def demo_defs eval_defs)

text \<open>
  C7. Under \<open>fix\<close>, for every node to which an entry of the table with a delimiter
  applies (a text region, a text line, a word): when the run returns, the canonical text
  of the node is the joined text of its children, as the run leaves them, whenever that
  and the node's text before the run are both non-empty, and the run has appended no text
  error at all. So a text line \<open>fo o\<close> whose words join to \<open>foo o\<close> ends as \<open>foo o\<close>.
\<close>

theorem fix_repairs_text_silently:
  assumes fx: "strictness cfg = ''fix''"
    and entry: "(c, Some g, Some sep) \<in> set HIERARCHY" "isinstance node c"
    and run: "validate_consistency G cfg node report = (Inr consistent, node', report @ es)"
  shows "get_text node' (strategy cfg) =
      (if concatenate (getattr node' g) sep (strategy cfg) \<noteq> []
          \<and> get_text node (strategy cfg) \<noteq> []
       then concatenate (getattr node' g) sep (strategy cfg) else get_text node (strategy cfg))
    \<and> (\<forall>tag i actual expected. ConsistencyError tag i actual expected \<notin> set es)"
proof
  from run show "get_text node' (strategy cfg) =
      (if concatenate (getattr node' g) sep (strategy cfg) \<noteq> []
          \<and> get_text node (strategy cfg) \<noteq> []
       then concatenate (getattr node' g) sep (strategy cfg) else get_text node (strategy cfg))"
  proof (cases rule: validate_consistency_cases)
    case glyph
    with text_entry_not_leaf[OF entry] show ?thesis by simp
  next
    case page
    then show ?thesis by simp
  next
    case element
    from element(3) show ?thesis
    proof (cases rule: validate_node_cases)
      case (coords_raise e)
      then show ?thesis by simp
    next
      case (hierarchy consistent parent_points node_poly report1)
      from fx text_entry_last_HIERARCHY entry hierarchy(2) show ?thesis
        by (rule fix_text_entry)
    qed
  qed
  from run have "extends G cfg report (report @ es)" by (rule validate_sound(1))
  then have "\<forall>e\<in>set es. sound_error G cfg e" by (auto dest: extends_appended)
  with fx show "\<forall>tag i actual expected. ConsistencyError tag i actual expected \<notin> set es"
    by (auto simp: sound_error_def)
qed

theorem fix_repairs_text_silently_witness:
  "strictness (demo_config ''fix'' True) = ''fix''
   \<and> (TextLineType, Some get_Word, Some '' '') \<in> set HIERARCHY
   \<and> isinstance (demo_line ''fo o'') TextLineType
   \<and> validate_consistency demo_shapely (demo_config ''fix'' True) (demo_line ''fo o'') [] =
       (Inr False, demo_line ''foo o'', [] @ [])
   \<and> get_text (demo_line ''fo o'') ''index1'' = ''fo o''
   \<and> concatenate (getattr (demo_line ''foo o'') get_Word) '' '' ''index1'' = ''foo o''
   \<and> get_text (demo_line ''foo o'') ''index1'' = ''foo o''"
proof -
  have s: "strategy (demo_config ''fix'' True) = ''index1''" by (simp add: demo_config_def)
  have h1: "strictness (demo_config ''fix'' True) = ''fix''" by (simp add: demo_config_def)
  have h2: "(TextLineType, Some get_Word, Some '' '') \<in> set HIERARCHY"
    by (simp add: HIERARCHY_def)
  have h3: "isinstance (demo_line ''fo o'') TextLineType"
    by (simp add: demo_line_def element_def isinstance_def)
  have h4: "validate_consistency demo_shapely (demo_config ''fix'' True) (demo_line ''fo o'') [] =
       (Inr False, demo_line ''foo o'', [] @ [])"
    by (simp add: demo_defs eval_defs)
  have h5: "get_text (demo_line ''fo o'') ''index1'' = ''fo o''"
    by (simp add: demo_line_def element_def get_text_def strip_def isspace_def)
  have h6: "concatenate (getattr (demo_line ''foo o'') get_Word) '' '' ''index1'' = ''foo o''"
    by (simp add: demo_line_def element_def getattr_def concatenate_def get_text_def strip_def
        isspace_def)
  from fix_repairs_text_silently[OF h1 h2 h3 h4, unfolded s h5 h6] h1 h2 h3 h4 h5 h6
  show ?thesis by simp
qed

text \<open>
  C4, as amended. Every containment error in the report names an inner shape that
  passed the validity test (a child's polygon, or a baseline) and an outer polygon that
  exists and, for a child, is not empty. That the outer polygon passed the validity
  test is not required.
\<close>

theorem containment_only_for_valid_inner:
  assumes "validate_consistency_PcGts G cfg pcgts report = (r, pcgts', report')"
  shows "\<exists>es. report' = report @ es \<and>
     (\<forall>tag i outer inner. CoordinateConsistencyError tag i outer inner \<in> set es \<longrightarrow>
        (\<exists>q. Polygon G outer = Some q \<and>
           ((check_coords cfg \<and> \<not> is_empty G q
               \<and> (\<exists>p. Polygon G inner = Some p \<and> \<not> invalid_coords G p \<and> \<not> geom_within G p q))
            \<or> (check_baseline cfg
               \<and> (\<exists>l. LineString G inner = Some l \<and> \<not> invalid_coords G l
                      \<and> \<not> geom_within G l q)))))"
proof -
  obtain page' where "validate_node G cfg (pcGtsId pcgts) (Page pcgts) report = (r, page', report')"
    using assms by (auto simp: validate_consistency_PcGts_def split: prod.splits)
  then have "extends G cfg report report'" by (rule validate_sound(2))
  then obtain es where es: "report' = report @ es" "\<forall>e\<in>set es. sound_error G cfg e"
    by (auto simp: extends_def list_all_iff)
  have "\<exists>q. Polygon G outer = Some q \<and>
           ((check_coords cfg \<and> \<not> is_empty G q
               \<and> (\<exists>p. Polygon G inner = Some p \<and> \<not> invalid_coords G p \<and> \<not> geom_within G p q))
            \<or> (check_baseline cfg
               \<and> (\<exists>l. LineString G inner = Some l \<and> \<not> invalid_coords G l
                      \<and> \<not> geom_within G l q)))"
    if "CoordinateConsistencyError tag i outer inner \<in> set es" for tag i outer inner
  proof -
    from that es(2) have "sound_error G cfg (CoordinateConsistencyError tag i outer inner)"
      by blast
    then show ?thesis by (auto simp: sound_error_def split: option.splits)
  qed
  with es(1) show ?thesis by blast
qed

lemma eval_outside: "validate_consistency_PcGts demo_shapely (demo_config ''strict'' True)
     (demo_page [demo_outside]) [] =
   (Inr False, demo_page [demo_outside],
    [CoordinateValidityError ''TextRegion'' ''r1'' ''-2,0 2,0 2,4 -2,4'',
     CoordinateConsistencyError ''TextRegion'' ''l1'' ''-2,0 2,0 2,4 -2,4'' ''5,5 9,5 9,9 5,9''])"
  by (simp add: demo_outside_def demo_defs eval_defs)


theorem containment_only_for_valid_inner_witness:
  "validate_consistency_PcGts demo_shapely (demo_config ''strict'' True)
     (demo_page [demo_outside]) [] =
   (Inr False, demo_page [demo_outside],
    [CoordinateValidityError ''TextRegion'' ''r1'' ''-2,0 2,0 2,4 -2,4'',
     CoordinateConsistencyError ''TextRegion'' ''l1'' ''-2,0 2,0 2,4 -2,4'' ''5,5 9,5 9,9 5,9''])
   \<and> (\<exists>q. Polygon demo_shapely ''-2,0 2,0 2,4 -2,4'' = Some q
        \<and> (\<exists>p. Polygon demo_shapely ''5,5 9,5 9,9 5,9'' = Some p
              \<and> \<not> invalid_coords demo_shapely p \<and> \<not> geom_within demo_shapely p q))"
proof -
  from containment_only_for_valid_inner[OF eval_outside] obtain es where
    es: "[CoordinateValidityError ''TextRegion'' ''r1'' ''-2,0 2,0 2,4 -2,4'',
          CoordinateConsistencyError ''TextRegion'' ''l1'' ''-2,0 2,0 2,4 -2,4''
            ''5,5 9,5 9,9 5,9''] = [] @ es"
    and inner: "\<And>tag i outer inner. CoordinateConsistencyError tag i outer inner \<in> set es \<Longrightarrow>
        (\<exists>q. Polygon demo_shapely outer = Some q \<and>
           ((check_coords (demo_config ''strict'' True) \<and> \<not> is_empty demo_shapely q
               \<and> (\<exists>p. Polygon demo_shapely inner = Some p \<and> \<not> invalid_coords demo_shapely p
                      \<and> \<not> geom_within demo_shapely p q))
            \<or> (check_baseline (demo_config ''strict'' True)
               \<and> (\<exists>l. LineString demo_shapely inner = Some l \<and> \<not> invalid_coords demo_shapely l
                      \<and> \<not> geom_within demo_shapely l q))))"
    by blast
  from es[symmetric] have "CoordinateConsistencyError ''TextRegion'' ''l1'' ''-2,0 2,0 2,4 -2,4''
      ''5,5 9,5 9,9 5,9'' \<in> set es" by simp
  from inner[OF this] have "\<exists>q. Polygon demo_shapely ''-2,0 2,0 2,4 -2,4'' = Some q
        \<and> (\<exists>p. Polygon demo_shapely ''5,5 9,5 9,9 5,9'' = Some p
              \<and> \<not> invalid_coords demo_shapely p \<and> \<not> geom_within demo_shapely p q)"
    by (auto simp: demo_shapely_def)
  with eval_outside show ?thesis by simp
qed

text \<open>
  C4, as stated, fails: the polygon of the region below fails the validity test (a
  negative coordinate), which is reported, and the line inside the region is then still
  compared with it, which is reported as well.
\<close>

theorem containment_against_invalid_parent_counterexample:
  "Polygon demo_shapely ''-2,0 2,0 2,4 -2,4'' = Some ''-2,0 2,0 2,4 -2,4''
   \<and> invalid_coords demo_shapely ''-2,0 2,0 2,4 -2,4''
   \<and> validate demo_shapely no_loader no_parser None (Some (demo_page [demo_outside])) None
       ''strict'' ''index1'' True True =
     (Inr [CoordinateValidityError ''TextRegion'' ''r1'' ''-2,0 2,0 2,4 -2,4'',
           CoordinateConsistencyError ''TextRegion'' ''l1'' ''-2,0 2,0 2,4 -2,4''
             ''5,5 9,5 9,9 5,9''],
      Some (demo_page [demo_outside]))"
  by (simp add: validate_def demo_outside_def demo_defs eval_defs)

text \<open>
  C5, as amended. For a page without a border the run is the traversal of its regions:
  nothing is raised or reported for the missing border, and no region is compared with
  the page. An element other than a page or a glyph whose \<^verbatim>\<open>Coords\<close> is missing makes
  the run raise as soon as one of the two coordinate checks is on.
\<close>

theorem page_without_border:
  "(class_of page = PageType \<and> Border page = None \<longrightarrow>
      validate_node G cfg node_id page report =
        traverse_regions G cfg region_getters page True report)
   \<and> (\<not> isinstance node GlyphType \<and> \<not> isinstance node PageType \<and> Coords node = None
        \<and> (check_coords cfg \<or> check_baseline cfg) \<longrightarrow>
      validate_consistency G cfg node report = (Inl AttributeError, node, report))"
proof (intro conjI impI)
  assume a: "class_of page = PageType \<and> Border page = None"
  then have "validate_node_coords G cfg (original_tagname page) node_id page report =
      Inr (True, [], None, report)"
    by (simp add: validate_node_coords_def isinstance_def)
  moreover have "\<forall>e\<in>set HIERARCHY. fst e = PageType \<longrightarrow> fst (snd e) \<noteq> None \<and> snd (snd e) = None"
    by (simp add: HIERARCHY_def)
  ultimately show "validate_node G cfg node_id page report =
      traverse_regions G cfg region_getters page True report"
    using a by (simp add: validate_node.simps validate_hierarchy_without_polygon page_getters)
next
  assume "\<not> isinstance node GlyphType \<and> \<not> isinstance node PageType \<and> Coords node = None
        \<and> (check_coords cfg \<or> check_baseline cfg)"
  then show "validate_consistency G cfg node report = (Inl AttributeError, node, report)"
    by (auto simp: validate_consistency.simps validate_node.simps validate_node_coords_def)
qed


theorem page_without_border_witness:
  "class_of (Page (demo_page [demo_region ''fo o''])) = PageType
   \<and> Border (Page (demo_page [demo_region ''fo o''])) = None
   \<and> validate_node demo_shapely (demo_config ''strict'' True) ''pc''
        (Page (demo_page [demo_region ''fo o''])) [] =
      traverse_regions demo_shapely (demo_config ''strict'' True) region_getters
        (Page (demo_page [demo_region ''fo o''])) True []
   \<and> check_coords (demo_config ''strict'' True)
   \<and> Coords (Node TextRegionType ''r1'' None None None [] []) = None
   \<and> validate_consistency demo_shapely (demo_config ''strict'' True)
        (Node TextRegionType ''r1'' None None None [] []) [] =
      (Inl AttributeError, Node TextRegionType ''r1'' None None None [] [], [])"
  using page_without_border[of "Page (demo_page [demo_region ''fo o''])" demo_shapely
      "demo_config ''strict'' True" "''pc''" "[]" "Node TextRegionType ''r1'' None None None [] []"]
  by (simp add: demo_page_def demo_config_def isinstance_def)

text \<open>
  C5, as stated, fails for \<^verbatim>\<open>Coords\<close>: a region without them makes the run raise.
\<close>

theorem missing_coords_raise_counterexample:
  "validate demo_shapely no_loader no_parser None
     (Some (demo_page [Node TextRegionType ''r1'' None None None [] []])) None
     ''strict'' ''index1'' True True =
   (Inl AttributeError, Some (demo_page [Node TextRegionType ''r1'' None None None [] []]))"
  by (simp add: validate_def demo_defs eval_defs)

text \<open>
  C6. Repair is idempotent. After a run under \<open>fix\<close> on a document, whatever its
  outcome, a second run under \<open>fix\<close> on the tree the first one left, from any report,
  leaves that tree as it is (no text is overwritten again), appends the errors the
  first run appended (they are errors of geometry: under \<open>fix\<close> no text error is ever
  appended) and ends exactly as the run with the text check switched off does: the
  second run finds no text that differs from the joined text of the children.
\<close>

theorem second_repair_changes_nothing:
  assumes fx: "strictness cfg = ''fix''"
    and run: "validate_consistency_PcGts G cfg pcgts r = (o1, pcgts1, r1)"
  shows "\<exists>o2 es. r1 = r @ es
      \<and> validate_consistency_PcGts G cfg pcgts1 r2 = (o2, pcgts1, r2 @ es)
      \<and> validate_consistency_PcGts G (without_text_check cfg) pcgts1 r2 = (o2, pcgts1, r2 @ es)"
proof -
  from run obtain p1 where vn: "validate_node G cfg (pcGtsId pcgts) (Page pcgts) r = (o1, p1, r1)"
    and p1: "pcgts1 = PcGtsType (pcGtsId pcgts) p1"
    by (auto simp: validate_consistency_PcGts_def split: prod.splits)
  from validate_without_text(2)[OF vn] fx have "similar cfg (Page pcgts) p1"
    by (simp add: similar_def)
  from validate_similar(2)[OF vn this, of r2]
  obtain o2 m' es where es: "r1 = r @ es"
    and second: "validate_node G cfg (pcGtsId pcgts) p1 r2 = (o2, m', r2 @ es)" by blast
  from validate_idem(2)[OF fx vn, of r2] second have m': "m' = p1" by simp
  from validate_without_text_check(2)[OF fx second m'] m'
  have "validate_node G (without_text_check cfg) (pcGtsId pcgts) p1 r2 = (o2, p1, r2 @ es)"
    by simp
  with es second m' p1 show ?thesis by (simp add: validate_consistency_PcGts_def)
qed

theorem second_repair_changes_nothing_witness:
  "strictness (demo_config ''fix'' True) = ''fix''
   \<and> validate_consistency_PcGts demo_shapely (demo_config ''fix'' True)
       (demo_page [demo_region ''fo o'']) [] = (Inr False, demo_page [demo_region ''foo o''], [])
   \<and> validate_consistency_PcGts demo_shapely (demo_config ''fix'' True)
       (demo_page [demo_region ''foo o'']) [] = (Inr True, demo_page [demo_region ''foo o''], [])
   \<and> validate_consistency_PcGts demo_shapely (without_text_check (demo_config ''fix'' True))
       (demo_page [demo_region ''foo o'']) [] = (Inr True, demo_page [demo_region ''foo o''], [])"
proof -
  have h1: "strictness (demo_config ''fix'' True) = ''fix''" by (simp add: demo_config_def)
  have h2: "validate_consistency_PcGts demo_shapely (demo_config ''fix'' True)
       (demo_page [demo_region ''fo o'']) [] = (Inr False, demo_page [demo_region ''foo o''], [])"
    by (simp add: demo_defs eval_defs)
  have h3: "validate_consistency_PcGts demo_shapely (demo_config ''fix'' True)
       (demo_page [demo_region ''foo o'']) [] = (Inr True, demo_page [demo_region ''foo o''], [])"
    by (simp add: demo_defs eval_defs)
  from second_repair_changes_nothing[OF h1 h2, of "[]"] h3
  have "validate_consistency_PcGts demo_shapely (without_text_check (demo_config ''fix'' True))
       (demo_page [demo_region ''foo o'']) [] = (Inr True, demo_page [demo_region ''foo o''], [])"
    by auto
  with h1 h2 h3 show ?thesis by simp
qed

text \<open>
  C10. The table lists \<^verbatim>\<open>get_GraphicRegion\<close> twice for a page and twice for a region
  (two entries make the loop visit the graphic regions of such a node), so a run on a
  page or a region that returns has called \<^verbatim>\<open>validate_consistency\<close> twice on each
  child that is a graphic region: the run on the child alone returns as
  well, and every error it finds in the child's subtree (of validity, of containment,
  of text) is among the errors the run on the parent appends at least twice as often.
  In the example the parent's errors are exactly the child's, twice.
\<close>

theorem graphic_region_is_validated_twice:
  assumes parent: "isinstance parent PageType \<or> isinstance parent RegionType"
    and child: "child \<in> set (children parent)" "class_of child = GraphicRegionType"
    and run: "validate_node G cfg nid parent report = (Inr b, parent', report')"
    and alone: "validate_consistency G cfg child [] = (oc, child', child_errors)"
  shows "visits parent GraphicRegionType HIERARCHY = 2
     \<and> (\<exists>bc. oc = Inr bc)
     \<and> (\<exists>es. report' = report @ es \<and> (\<forall>e. 2 * count_list child_errors e \<le> count_list es e))"
  using run
proof (cases rule: validate_node_cases)
  case (coords_raise e)
  then show ?thesis by simp
next
  case (hierarchy consistent parent_points node_poly report1)
  from validate_node_coords_appends[OF hierarchy(1)]
  obtain es0 where es0: "report1 = report @ es0" by blast
  from hierarchy_appends_child_errors[OF hierarchy(2) child(1) similar_refl alone]
    visits_GraphicRegion[OF parent] child(2)
  obtain es where "\<exists>bc. oc = Inr bc" "report' = report1 @ es"
    "\<forall>e. 2 * count_list child_errors e \<le> count_list es e" by auto
  with es0 visits_GraphicRegion[OF parent] show ?thesis by (auto intro: trans_le_add2)
qed

theorem graphic_region_is_validated_twice_witness:
  "isinstance (Page (demo_page [demo_graphic])) PageType
   \<and> demo_graphic \<in> set (children (Page (demo_page [demo_graphic])))
   \<and> class_of demo_graphic = GraphicRegionType
   \<and> validate_node demo_shapely (demo_config ''strict'' True) ''pc''
       (Page (demo_page [demo_graphic])) [] =
       (Inr False, Page (demo_page [demo_graphic]), demo_graphic_errors @ demo_graphic_errors)
   \<and> validate_consistency demo_shapely (demo_config ''strict'' True) demo_graphic [] =
       (Inr False, demo_graphic, demo_graphic_errors)
   \<and> visits (Page (demo_page [demo_graphic])) GraphicRegionType HIERARCHY = 2
   \<and> (\<forall>e. 2 * count_list demo_graphic_errors e
          \<le> count_list (demo_graphic_errors @ demo_graphic_errors) e)"
proof -
  have h1: "isinstance (Page (demo_page [demo_graphic])) PageType
      \<or> isinstance (Page (demo_page [demo_graphic])) RegionType"
    by (simp add: demo_page_def isinstance_def)
  have h2: "demo_graphic \<in> set (children (Page (demo_page [demo_graphic])))"
    by (simp add: demo_page_def)
  have h3: "class_of demo_graphic = GraphicRegionType"
    by (simp add: demo_graphic_def element_def)
  have h5: "validate_consistency demo_shapely (demo_config ''strict'' True) demo_graphic [] =
       (Inr False, demo_graphic, demo_graphic_errors)"
    by (simp add: demo_graphic_def demo_graphic_errors_def demo_two_lines_def demo_defs eval_defs)
  have h4: "validate_node demo_shapely (demo_config ''strict'' True) ''pc''
       (Page (demo_page [demo_graphic])) [] =
       (Inr False, Page (demo_page [demo_graphic]), [] @ demo_graphic_errors @ demo_graphic_errors)"
    by (simp add: demo_graphic_def demo_graphic_errors_def demo_two_lines_def demo_defs eval_defs)
  from graphic_region_is_validated_twice[OF h1 h2 h3 h4 h5]
  have "visits (Page (demo_page [demo_graphic])) GraphicRegionType HIERARCHY = 2
      \<and> (\<forall>e. 2 * count_list demo_graphic_errors e
          \<le> count_list (demo_graphic_errors @ demo_graphic_errors) e)" by simp
  with h1 h2 h3 h4 h5 show ?thesis by (simp add: demo_page_def isinstance_def)
qed

text \<open>
  C2. The validity test does raise. The validator builds the polygon of an element with
  \<^verbatim>\<open>Polygon(polygon_from_points(points))\<close> and no handler (lines 163 and 186), and
  Shapely's constructor refuses a ring of fewer than three points with a
  \<^verbatim>\<open>ValueError\<close>, as the geometry of the evaluation does. So a page with a region
  whose polygon has the two points \<open>0,0 1,1\<close> makes \<^verbatim>\<open>validate\<close> raise: no report is
  returned and no \<^verbatim>\<open>CoordinateValidityError\<close> is recorded for the region, although
  that error is documented as the one for a polygon of fewer than three points.
\<close>

theorem two_point_polygon_raises:
  "validate demo_shapely no_loader no_parser None (Some (demo_page [demo_two_points])) None
     ''strict'' ''index1'' True True =
   (Inl ValueError, Some (demo_page [demo_two_points]))"
  by (simp add: validate_def demo_two_points_def demo_defs eval_defs)

end
